theory Spec2Isabelle
  imports Complex_Main
begin

section \<open>Office documents to PDF: the shared engine and the conversion pipeline\<close>

text \<open>
  The three processors (\<^verbatim>\<open>pptx-to-pdf.ts\<close>, \<^verbatim>\<open>rtf-to-pdf.ts\<close> and the Word processor)
  are the same module up to the accepted extensions, the pattern that strips the
  extension and the texts shown to the user. The model has one parameter for what
  differs, \<open>format\<close>, and follows the source line by line for what is shared:
  the module variables \<^verbatim>\<open>converterPromise\<close> and \<^verbatim>\<open>converterInstance\<close>, the function
  \<^verbatim>\<open>getConverter\<close> and the method \<^verbatim>\<open>process\<close>.

  JavaScript runs these asynchronous functions on one thread: a call runs until its
  next \<^verbatim>\<open>await\<close>, and resumes when the awaited promise settles. Each piece of code
  between two suspension points is one function on the state below; what the
  environment does (the dynamic import settles, the engine reports progress, the
  engine's \<^verbatim>\<open>initialize\<close> or \<^verbatim>\<open>convertToPdf\<close> settles, a caller cancels) is an event.
\<close>

subsection \<open>File names\<close>

text \<open>
  A name is a list of characters. \<^verbatim>\<open>toLowerCase\<close> and the \<^verbatim>\<open>i\<close> flag of the patterns
  are modelled on the letters A to Z: the accepted extensions and the patterns hold
  only the letters c, d, f, o, p, r, t and x, and no character outside ASCII is
  mapped to one of these by either operation.
\<close>

definition toLowerChar :: "char \<Rightarrow> char" where
  "toLowerChar c =
     (case map_of (zip ''ABCDEFGHIJKLMNOPQRSTUVWXYZ'' ''abcdefghijklmnopqrstuvwxyz'') c of
        Some l \<Rightarrow> l
      | None \<Rightarrow> c)"

definition toLowerCase :: "string \<Rightarrow> string" where
  "toLowerCase s = map toLowerChar s"

text \<open>\<^verbatim>\<open>name.split('.')\<close>: the segments between the separators; never empty.\<close>

fun split_on :: "char \<Rightarrow> string \<Rightarrow> string list" where
  "split_on sep [] = [[]]"
| "split_on sep (c # cs) =
     (if c = sep then [] # split_on sep cs
      else (case split_on sep cs of
              [] \<Rightarrow> [[c]]
            | seg # segs \<Rightarrow> (c # seg) # segs))"

text \<open>\<^verbatim>\<open>Array.prototype.pop\<close>: the last element, \<^verbatim>\<open>undefined\<close> on an empty array.\<close>

definition pop :: "'a list \<Rightarrow> 'a option" where
  "pop xs = (if xs = [] then None else Some (last xs))"

text \<open>\<^verbatim>\<open>file.name.split('.').pop()?.toLowerCase() || ''\<close> (line 65).\<close>

definition ext_of :: "string \<Rightarrow> string" where
  "ext_of n =
     (case pop (split_on CHR ''.'' n) of
        None \<Rightarrow> ''''
      | Some seg \<Rightarrow> (let l = toLowerCase seg in if l = '''' then '''' else l))"

text \<open>
  \<^verbatim>\<open>name.replace(/\.(alt1|alt2|...)$/i, '')\<close> (line 97). The pattern has no \<^verbatim>\<open>g\<close> flag: the
  search goes through the start positions from the left and removes the first
  match. At a position the pattern matches when the rest of the name is a dot
  followed by one of the alternatives, letters compared without case, and then the
  end of the name.
\<close>

definition matches_here :: "string list \<Rightarrow> string \<Rightarrow> bool" where
  "matches_here alts rest =
     (\<exists>alt \<in> set alts. toLowerCase rest = toLowerCase (CHR ''.'' # alt))"

fun replace_ext :: "string list \<Rightarrow> string \<Rightarrow> string" where
  "replace_ext alts [] = []"
| "replace_ext alts (c # cs) =
     (if matches_here alts (c # cs) then [] else c # replace_ext alts cs)"

text \<open>\<^verbatim>\<open>${files.length}\<close>: a number in decimal.\<close>

fun string_of_nat :: "nat \<Rightarrow> string" where
  "string_of_nat n =
     (if n < 10 then [''0123456789'' ! n]
      else string_of_nat (n div 10) @ [''0123456789'' ! (n mod 10)])"

subsection \<open>What differs between the three processors\<close>

datatype format = PPTX | RTF | Word

text \<open>Line 66, \<^verbatim>\<open>validExts\<close>; the RTF processor compares with \<^verbatim>\<open>'rtf'\<close> alone (line 67).\<close>

fun validExts :: "format \<Rightarrow> string list" where
  "validExts PPTX = [''pptx'', ''ppt'', ''odp'']"
| "validExts RTF = [''rtf'']"
| "validExts Word = [''docx'', ''doc'', ''odt'', ''rtf'']"

text \<open>
  Line 97, the alternatives of the pattern, with the optional \<^verbatim>\<open>x\<close> of \<^verbatim>\<open>pptx?\<close> and
  \<^verbatim>\<open>docx?\<close> written out: \<^verbatim>\<open>/\.(pptx?|odp)$/i\<close>, \<^verbatim>\<open>/\.rtf$/i\<close>, \<^verbatim>\<open>/\.(docx?|odt|rtf)$/i\<close>.
\<close>

fun extPattern :: "format \<Rightarrow> string list" where
  "extPattern PPTX = [''pptx'', ''ppt'', ''odp'']"
| "extPattern RTF = [''rtf'']"
| "extPattern Word = [''docx'', ''doc'', ''odt'', ''rtf'']"

text \<open>A list of alternatives in lower case and without a dot, as all of the above are.\<close>

definition plain_alts :: "string list \<Rightarrow> bool" where
  "plain_alts alts = (\<forall>alt \<in> set alts. CHR ''.'' \<notin> set alt \<and> toLowerCase alt = alt)"

fun msgExactlyOne :: "format \<Rightarrow> string" where
  "msgExactlyOne PPTX = ''Please provide exactly one PowerPoint presentation.''"
| "msgExactlyOne RTF = ''Please provide exactly one RTF file.''"
| "msgExactlyOne Word = ''Please provide exactly one Word document.''"

fun msgInvalidType :: "format \<Rightarrow> string" where
  "msgInvalidType PPTX = ''Invalid file type. Please upload .pptx, .ppt, or .odp.''"
| "msgInvalidType RTF = ''Invalid file type. Please upload an .rtf file.''"
| "msgInvalidType Word = ''Invalid file type. Please upload .docx, .doc, .odt, or .rtf.''"

fun msgConverting :: "format \<Rightarrow> string" where
  "msgConverting PPTX = ''Converting PowerPoint to PDF...''"
| "msgConverting RTF = ''Converting RTF to PDF...''"
| "msgConverting Word = ''Converting Word document to PDF...''"

fun msgFailed :: "format \<Rightarrow> string" where
  "msgFailed PPTX = ''Failed to convert PowerPoint to PDF.''"
| "msgFailed RTF = ''Failed to convert RTF to PDF.''"
| "msgFailed Word = ''Failed to convert Word document to PDF.''"

subsection \<open>Numbers\<close>

text \<open>
  A JavaScript number: not a number, one of the two infinities, or finite. A
  finite number is a rational here (every double is one), a numeral of the source
  is \<open>Finite\<close> of it, with \<^verbatim>\<open>0.8\<close> taken as four fifths, and the arithmetic on finite
  numbers is exact: the rounding of a product to the nearest double is left out.
\<close>

datatype number = NaN | NegInfinity | Finite rat | PosInfinity

subsection \<open>The conversion engine and the module state\<close>

text \<open>
  A thrown value is an \<^verbatim>\<open>Error\<close> instance with its \<^verbatim>\<open>message\<close>, or any other value (a
  string, a number, a plain object), kept here as a text. The \<^verbatim>\<open>catch\<close> of
  \<^verbatim>\<open>process\<close> tells the two apart (line 105).
\<close>

datatype thrown = ErrorInstance string | OtherValue string

datatype promise = Pending | Fulfilled | Rejected thrown

text \<open>
  Modelled from the spec: the engine of \<^verbatim>\<open>@/lib/libreoffice\<close>, which is not among the
  sources. It is the opaque capability of section 6 of the specification, with
  \<^verbatim>\<open>isReady\<close>, \<^verbatim>\<open>initialize\<close> and \<^verbatim>\<open>convertToPdf\<close>: \<open>ready\<close> is what \<^verbatim>\<open>isReady()\<close> answers,
  false until an \<^verbatim>\<open>initialize\<close> has succeeded; the two counters record how often
  \<^verbatim>\<open>initialize\<close> and \<^verbatim>\<open>convertToPdf\<close> have been invoked on the instance.
\<close>

record engine =
  ready :: bool
  initialize_calls :: nat
  convertToPdf_calls :: nat

definition getLibreOfficeConverter :: engine where
  "getLibreOfficeConverter = \<lparr>ready = False, initialize_calls = 0, convertToPdf_calls = 0\<rparr>"

definition isReady :: "engine \<Rightarrow> bool" where
  "isReady e = ready e"

definition initialize :: "engine \<Rightarrow> engine" where
  "initialize e = e\<lparr>initialize_calls := Suc (initialize_calls e)\<rparr>"

definition convertToPdf :: "engine \<Rightarrow> engine" where
  "convertToPdf e = e\<lparr>convertToPdf_calls := Suc (convertToPdf_calls e)\<rparr>"

text \<open>
  A caller of \<^verbatim>\<open>getConverter\<close> is named by a number. Every evaluation of line 30
  starts the asynchronous function of lines 30 to 36 once more and gives a new
  promise. A \<open>flight\<close> is one such promise together with the body that settles it:
  \<^item> \<open>promise_state\<close>: the state of the promise;
  \<^item> \<open>callback\<close>: the \<^verbatim>\<open>onProgress\<close> that the closure of lines 33 to 35 of this body
    refers to, that is the argument of the call of \<^verbatim>\<open>getConverter\<close> that evaluated
    line 30 (\<open>None\<close> when that call passed no callback);
  \<^item> \<open>handed\<close>: the body has run line 33, so the engine holds the closure; a
    pending body is suspended at the import of line 31 before, and at
    \<^verbatim>\<open>await converterInstance.initialize(...)\<close> after;
  \<^item> \<open>waiting\<close>: the calls suspended on this promise (lines 26 and 38).
\<close>

type_synonym caller = nat

record flight =
  promise_state :: promise
  callback :: "caller option"
  handed :: bool
  waiting :: "caller list"

text \<open>
  The module state is the two variables of lines 19 and 20, the promises created
  so far, and what the theorems read:
  \<^item> \<open>promise_ref\<close>: the variable \<^verbatim>\<open>converterPromise\<close>, \<^verbatim>\<open>null\<close> or a reference to one
    of the promises, which is its position in \<open>promises\<close>;
  \<^item> \<open>promises\<close>: every promise that line 30 has created, in order;
  \<^item> \<open>returned\<close>: how each call's own promise settled, \<open>Inr ()\<close> for
    \<^verbatim>\<open>return converterInstance\<close> and \<open>Inl t\<close> when the awaited promise threw \<open>t\<close>;
  \<^item> \<open>delivered\<close>: the invocations of callers' \<^verbatim>\<open>onProgress\<close>, in order (line 34);
  \<^item> \<open>getConverter_calls\<close>: how often \<^verbatim>\<open>getConverter\<close> was entered;
  \<^item> \<open>initialize_count\<close>: how often line 33 has invoked \<^verbatim>\<open>initialize\<close>, whichever
    body ran it and whichever instance the variable held.
\<close>

record module_state =
  promise_ref :: "nat option"
  converterInstance :: "engine option"
  promises :: "flight list"
  returned :: "caller \<Rightarrow> (thrown + unit) option"
  delivered :: "(caller \<times> number \<times> string) list"
  getConverter_calls :: nat
  initialize_count :: nat

text \<open>Lines 19 and 20: both variables start as \<^verbatim>\<open>null\<close>.\<close>

definition module_init :: module_state where
  "module_init =
     \<lparr>promise_ref = None, converterInstance = None, promises = [],
      returned = (\<lambda>c. None), delivered = [], getConverter_calls = 0, initialize_count = 0\<rparr>"

text \<open>
  What the variable \<^verbatim>\<open>converterPromise\<close> holds: \<^verbatim>\<open>null\<close>, or a promise in the state
  given. The calls suspended at \<^verbatim>\<open>await converterPromise\<close> are those of all promises.
\<close>

definition converterPromise :: "module_state \<Rightarrow> promise option" where
  "converterPromise m = map_option (\<lambda>i. promise_state (promises m ! i)) (promise_ref m)"

definition awaiting :: "module_state \<Rightarrow> caller list" where
  "awaiting m = concat (map waiting (promises m))"

definition return_to :: "caller \<Rightarrow> (thrown + unit) \<Rightarrow> module_state \<Rightarrow> module_state" where
  "return_to c r m = m\<lparr>returned := (returned m)(c \<mapsto> r)\<rparr>"

definition update_flight :: "nat \<Rightarrow> (flight \<Rightarrow> flight) \<Rightarrow> module_state \<Rightarrow> module_state" where
  "update_flight i g m = m\<lparr>promises := (promises m)[i := g (promises m ! i)]\<rparr>"

text \<open>
  \<^verbatim>\<open>await converterPromise; return converterInstance\<close> (lines 26 and 27, lines 38 and
  39) on promise \<open>i\<close>: a pending promise suspends the call, a fulfilled one gives
  the instance, a rejected one throws its reason again.
\<close>

definition await_promise :: "nat \<Rightarrow> caller \<Rightarrow> module_state \<Rightarrow> module_state" where
  "await_promise i c m =
     (case promise_state (promises m ! i) of
        Pending \<Rightarrow> update_flight i (\<lambda>f. f\<lparr>waiting := waiting f @ [c]\<rparr>) m
      | Fulfilled \<Rightarrow> return_to c (Inr ()) m
      | Rejected t \<Rightarrow> return_to c (Inl t) m)"

text \<open>
  \<^verbatim>\<open>getConverter(onProgress)\<close>, lines 22 to 40, up to its first suspension. The
  argument \<open>has_cb\<close> says whether the caller passed a callback.
  \<^item> line 23: a ready instance is returned at once;
  \<^item> lines 25 to 28: when the variable holds a promise, that promise is awaited,
    whatever its state;
  \<^item> lines 30 to 38: otherwise the call creates a promise, whose body runs up to
    \<^verbatim>\<open>await import(...)\<close>, stores it in the variable and awaits it.
\<close>

definition getConverter :: "caller \<Rightarrow> bool \<Rightarrow> module_state \<Rightarrow> module_state" where
  "getConverter c has_cb m0 =
     (let m = m0\<lparr>getConverter_calls := Suc (getConverter_calls m0)\<rparr> in
      if (case converterInstance m of None \<Rightarrow> False | Some e \<Rightarrow> isReady e)
      then return_to c (Inr ()) m
      else
        (case promise_ref m of
           Some i \<Rightarrow> await_promise i c m
         | None \<Rightarrow>
             (let i = length (promises m) in
              await_promise i c
                (m\<lparr>promise_ref := Some i,
                   promises := promises m @
                     [\<lparr>promise_state = Pending,
                       callback = (if has_cb then Some c else None),
                       handed = False, waiting = []\<rparr>]\<rparr>))))"

text \<open>
  Promise \<open>i\<close> settles: every call suspended on it resumes, in the order in which
  they suspended, and returns the instance (lines 27 and 39) or throws the reason.
\<close>

definition settle :: "nat \<Rightarrow> promise \<Rightarrow> module_state \<Rightarrow> module_state" where
  "settle i p m =
     (let r = (case p of Rejected t \<Rightarrow> Inl t | _ \<Rightarrow> Inr ()) in
      update_flight i (\<lambda>f. f\<lparr>promise_state := p, waiting := []\<rparr>)
        (fold (\<lambda>c. return_to c r) (waiting (promises m ! i)) m))"

text \<open>The body is suspended at the import (line 31).\<close>

definition importing :: "flight \<Rightarrow> bool" where
  "importing f = (promise_state f = Pending \<and> \<not> handed f)"

text \<open>The body is suspended at \<^verbatim>\<open>await converterInstance.initialize(...)\<close> (line 33).\<close>

definition initializing :: "flight \<Rightarrow> bool" where
  "initializing f = (promise_state f = Pending \<and> handed f)"

text \<open>
  The dynamic import settles. Every \<^verbatim>\<open>import\<close> of the one module gets the same
  answer, so every body that is suspended at line 31 resumes, in the order in
  which they started; in a run of the module as it is written there is at most
  one. When the import resolves, line 32 stores the instance and
  line 33 invokes \<^verbatim>\<open>initialize\<close> with the closure; when it rejects, the body throws
  and its promise is rejected with the same reason, before any instance is
  stored. A throw of \<^verbatim>\<open>getLibreOfficeConverter()\<close> on line 32 leaves the same state
  behind and is the same event.
\<close>

definition import_resumes :: "thrown option \<Rightarrow> nat \<Rightarrow> module_state \<Rightarrow> module_state" where
  "import_resumes r i m =
     (if importing (promises m ! i) then
        (case r of
           None \<Rightarrow>
             update_flight i (\<lambda>f. f\<lparr>handed := True\<rparr>)
               (m\<lparr>converterInstance := Some (initialize getLibreOfficeConverter),
                  initialize_count := Suc (initialize_count m)\<rparr>)
         | Some t \<Rightarrow> settle i (Rejected t) m)
      else m)"

definition import_settled :: "thrown option \<Rightarrow> module_state \<Rightarrow> module_state" where
  "import_settled r m = fold (import_resumes r) [0..<length (promises m)] m"

text \<open>
  The engine reports progress: it invokes the closures that line 33 has handed to
  it, and each closure runs \<^verbatim>\<open>onProgress?.(progress.percent, progress.message)\<close>,
  where \<^verbatim>\<open>onProgress\<close> is the parameter of the call that created the promise. The
  closure has no condition of its own: it forwards whenever the engine invokes
  it, also after \<^verbatim>\<open>initialize\<close> has settled. \<open>progress_targets\<close> are the callers whose
  callbacks a report invokes.
\<close>

definition progress_targets :: "module_state \<Rightarrow> caller list" where
  "progress_targets m =
     concat (map (\<lambda>f. if handed f then (case callback f of None \<Rightarrow> [] | Some c \<Rightarrow> [c]) else [])
                 (promises m))"

definition engine_progress :: "number \<Rightarrow> string \<Rightarrow> module_state \<Rightarrow> module_state" where
  "engine_progress percent message m =
     m\<lparr>delivered := delivered m @ map (\<lambda>c. (c, percent, message)) (progress_targets m)\<rparr>"

text \<open>
  \<^verbatim>\<open>initialize\<close> settles, and with it every body that is suspended at line 33 and the
  promise of that body (line 36). On success the engine is ready from now on.
\<close>

definition initialize_resumes :: "thrown option \<Rightarrow> nat \<Rightarrow> module_state \<Rightarrow> module_state" where
  "initialize_resumes r i m =
     (if initializing (promises m ! i) then
        (case r of
           None \<Rightarrow>
             settle i Fulfilled
               (m\<lparr>converterInstance := map_option (\<lambda>e. e\<lparr>ready := True\<rparr>) (converterInstance m)\<rparr>)
         | Some t \<Rightarrow> settle i (Rejected t) m)
      else m)"

definition initialize_settled :: "thrown option \<Rightarrow> module_state \<Rightarrow> module_state" where
  "initialize_settled r m = fold (initialize_resumes r) [0..<length (promises m)] m"

text \<open>The events seen by the module, and a run of the module over a list of them.\<close>

datatype module_event =
    Acquire caller bool
  | ImportDone "thrown option"
  | EngineProgress number string
  | InitDone "thrown option"

fun module_step :: "module_event \<Rightarrow> module_state \<Rightarrow> module_state" where
  "module_step (Acquire c has_cb) m = getConverter c has_cb m"
| "module_step (ImportDone r) m = import_settled r m"
| "module_step (EngineProgress percent message) m = engine_progress percent message m"
| "module_step (InitDone r) m = initialize_settled r m"

definition module_run :: "module_event list \<Rightarrow> module_state \<Rightarrow> module_state" where
  "module_run es m = fold module_step es m"

text \<open>What the theorems read from a list of events.\<close>

definition outcome :: "thrown option \<Rightarrow> thrown + unit" where
  "outcome r = (case r of None \<Rightarrow> Inr () | Some t \<Rightarrow> Inl t)"

fun callers_of :: "module_event list \<Rightarrow> caller list" where
  "callers_of [] = []"
| "callers_of (Acquire c b # es) = c # callers_of es"
| "callers_of (e # es) = callers_of es"

fun feed_of :: "module_event list \<Rightarrow> (number \<times> string) list" where
  "feed_of [] = []"
| "feed_of (EngineProgress p s # es) = (p, s) # feed_of es"
| "feed_of (e # es) = feed_of es"

fun is_acquire :: "module_event \<Rightarrow> bool" where
  "is_acquire (Acquire c b) = True"
| "is_acquire e = False"

text \<open>What can happen while the initialization is in flight: calls and progress reports.\<close>

fun during_init :: "module_event \<Rightarrow> bool" where
  "during_init (Acquire c b) = True"
| "during_init (EngineProgress p s) = True"
| "during_init e = False"

text \<open>What the callback of flight \<open>f\<close> is delivered of the reports \<open>feed\<close> of the engine.\<close>

definition heard :: "flight \<Rightarrow> (number \<times> string) list \<Rightarrow> (caller \<times> number \<times> string) list" where
  "heard f feed =
     (if handed f then (case callback f of None \<Rightarrow> [] | Some c \<Rightarrow> map (Pair c) feed) else [])"

text \<open>
  The invariant of the module. Line 30 has run at most once, so there is at most
  one promise, and the variable refers to it; the state of the promise says what
  holds of the instance, of the number of invocations of \<^verbatim>\<open>initialize\<close>, of the
  suspended calls and of the calls that have returned.
\<close>

definition instance_inv :: "bool \<Rightarrow> module_state \<Rightarrow> bool" where
  "instance_inv h m =
     (if h then (\<exists>e. converterInstance m = Some e \<and> \<not> ready e) \<and> initialize_count m = 1
      else converterInstance m = None \<and> initialize_count m = 0)"

definition flight_inv :: "flight \<Rightarrow> module_state \<Rightarrow> bool" where
  "flight_inv f m =
     (case promise_state f of
        Pending \<Rightarrow> (\<forall>c. returned m c = None) \<and> instance_inv (handed f) m
      | Fulfilled \<Rightarrow>
          waiting f = [] \<and> handed f \<and> initialize_count m = 1 \<and>
          (\<forall>c r. returned m c = Some r \<longrightarrow> r = Inr ()) \<and>
          (\<exists>e. converterInstance m = Some e \<and> ready e)
      | Rejected t \<Rightarrow>
          waiting f = [] \<and> instance_inv (handed f) m \<and>
          (\<forall>c r. returned m c = Some r \<longrightarrow> r = Inl t))"

definition module_inv :: "module_state \<Rightarrow> bool" where
  "module_inv m =
     (case promise_ref m of
        None \<Rightarrow>
          promises m = [] \<and> converterInstance m = None \<and> initialize_count m = 0 \<and>
          (\<forall>c. returned m c = None)
      | Some i \<Rightarrow>
          i = 0 \<and> length (promises m) = 1 \<and> flight_inv (promises m ! 0) m)"

subsection \<open>The processor\<close>

text \<open>\<^verbatim>\<open>File\<close>: its \<^verbatim>\<open>name\<close> and its \<^verbatim>\<open>type\<close>. The content is left to the engine.\<close>

record File =
  file_name :: string
  file_type :: string

type_synonym blob = nat

datatype PDFErrorCode =
  INVALID_OPTIONS | FILE_TYPE_INVALID | PROCESSING_CANCELLED | PROCESSING_FAILED

text \<open>
  Modelled from the spec: \<^verbatim>\<open>createSuccessOutput\<close> and \<^verbatim>\<open>createErrorOutput\<close> of
  \<^verbatim>\<open>BasePDFProcessor\<close> (\<^verbatim>\<open>../processor\<close>), which is not among the sources. Section 6 of the
  specification gives the two variants of the result: a success with the blob,
  the suggested file name and the format, or an error with a code, a message and
  a detail.
\<close>

datatype ProcessOutput =
    Success blob string string
  | Failure PDFErrorCode string "string option"

definition createSuccessOutput :: "blob \<Rightarrow> string \<Rightarrow> string \<Rightarrow> ProcessOutput" where
  "createSuccessOutput b n fmt = Success b n fmt"

definition createErrorOutput :: "PDFErrorCode \<Rightarrow> string \<Rightarrow> string option \<Rightarrow> ProcessOutput" where
  "createErrorOutput code message details = Failure code message details"

text \<open>
  Where a call of \<^verbatim>\<open>process\<close> stands: suspended at \<^verbatim>\<open>await getConverter(...)\<close>
  (line 79), suspended at \<^verbatim>\<open>await converter.convertToPdf(file)\<close> (line 89), or returned.
\<close>

datatype stage =
    AwaitingConverter File
  | AwaitingConversion File
  | Returned ProcessOutput

text \<open>
  A processor: where its call of \<^verbatim>\<open>process\<close> stands, its cancellation flag, and
  \<open>emitted\<close>, the progress events that the caller's \<^verbatim>\<open>onProgress\<close> has received from
  it, in order.
\<close>

record processor =
  stage :: stage
  cancelled :: bool
  emitted :: "(rat \<times> string) list"

text \<open>
  Modelled from the spec: \<^verbatim>\<open>reset\<close>, \<^verbatim>\<open>checkCancelled\<close> and the request to cancel of
  \<^verbatim>\<open>BasePDFProcessor\<close>, which is not among the sources. By section 3 of the
  specification the cancellation flag is a boolean owned by one operation, set by
  the caller and read at the checkpoints.
\<close>

definition reset :: "stage \<Rightarrow> processor" where
  "reset st = \<lparr>stage = st, cancelled = False, emitted = []\<rparr>"

definition checkCancelled :: "processor \<Rightarrow> bool" where
  "checkCancelled p = cancelled p"

definition cancel :: "processor \<Rightarrow> processor" where
  "cancel p = p\<lparr>cancelled := True\<rparr>"

text \<open>
  Modelled from the spec: \<^verbatim>\<open>updateProgress\<close> of \<^verbatim>\<open>BasePDFProcessor\<close>, which is not among the
  sources. The sources show its calls and their arguments only. By section 3 of
  the specification the percentage of a progress event lies within 0 and 100 and
  never decreases within one operation, and by section 4.2 the emitted percentage
  is clamped and never decreases even if the raw feed is noisy, with no effect
  beyond invoking the caller's progress sink. So the call hands to the sink the
  requested percentage, brought into the range from 0 to 100 and raised to the
  percentage emitted last when it is below it. The specification has no rule
  for a request that is not a number: the percentage emitted last is repeated.
\<close>

definition into_range :: "number \<Rightarrow> rat option" where
  "into_range n =
     (case n of
        NaN \<Rightarrow> None
      | NegInfinity \<Rightarrow> Some 0
      | Finite r \<Rightarrow> Some (min 100 (max 0 r))
      | PosInfinity \<Rightarrow> Some 100)"

definition last_percent :: "(rat \<times> string) list \<Rightarrow> rat" where
  "last_percent evs = (if evs = [] then 0 else fst (last evs))"

definition updateProgress :: "number \<Rightarrow> string \<Rightarrow> processor \<Rightarrow> processor" where
  "updateProgress percent message p =
     p\<lparr>emitted := emitted p @
         [(case into_range percent of
             None \<Rightarrow> last_percent (emitted p)
           | Some q \<Rightarrow> max (last_percent (emitted p)) q,
           message)]\<rparr>"

text \<open>
  The callback that \<^verbatim>\<open>process\<close> passes to \<^verbatim>\<open>getConverter\<close> (lines 79 to 81):
  \<^verbatim>\<open>this.updateProgress(Math.min(percent * 0.8, 80), message)\<close>, and \<open>scaled\<close> is the
  percentage that it requests for a raw one. The product of a value that is not
  a number is not a number, and so is the minimum then; an infinity times 0.8 is
  the same infinity. The callback looks neither at the percentage requested
  before nor at where the call of \<^verbatim>\<open>process\<close> stands.
\<close>

definition scaled :: "number \<Rightarrow> number" where
  "scaled percent =
     (case percent of
        NaN \<Rightarrow> NaN
      | NegInfinity \<Rightarrow> NegInfinity
      | Finite r \<Rightarrow> Finite (min (r * (4 / 5)) 80)
      | PosInfinity \<Rightarrow> Finite 80)"

definition onConverterProgress :: "number \<Rightarrow> string \<Rightarrow> processor \<Rightarrow> processor" where
  "onConverterProgress percent message p = updateProgress (scaled percent) message p"

text \<open>
  The \<^verbatim>\<open>catch\<close> of lines 100 to 107: the detail is the message of an \<^verbatim>\<open>Error\<close> instance
  and \<^verbatim>\<open>'Unknown error'\<close> for any other thrown value.
\<close>

definition error_detail :: "thrown \<Rightarrow> string" where
  "error_detail t = (case t of ErrorInstance msg \<Rightarrow> msg | OtherValue v \<Rightarrow> ''Unknown error'')"

definition caught :: "format \<Rightarrow> thrown \<Rightarrow> ProcessOutput" where
  "caught fmt t = createErrorOutput PROCESSING_FAILED (msgFailed fmt) (Some (error_detail t))"

definition cancelled_output :: ProcessOutput where
  "cancelled_output = createErrorOutput PROCESSING_CANCELLED ''Processing was cancelled.'' None"

text \<open>
  The whole system: the module state shared by all calls, and one processor for
  each call of \<^verbatim>\<open>process\<close>. As \<^verbatim>\<open>pptxToPDF\<close> does (lines 115 to 122), every call is made
  on a processor of its own; the number that names the processor also names its
  call of \<^verbatim>\<open>getConverter\<close>.
\<close>

record system =
  shared :: module_state
  processors :: "caller \<Rightarrow> processor option"

definition system_init :: system where
  "system_init = \<lparr>shared = module_init, processors = (\<lambda>c. None)\<rparr>"

definition put :: "caller \<Rightarrow> processor \<Rightarrow> system \<Rightarrow> system" where
  "put c p s = s\<lparr>processors := (processors s)(c \<mapsto> p)\<rparr>"

text \<open>The message of the first progress report (line 77).\<close>

definition loading :: string where
  "loading = ''Loading conversion engine (first time may take 1-2 minutes)...''"

text \<open>
  \<^verbatim>\<open>process(input, onProgress)\<close>, lines 47 to 81, up to its first suspension: the two
  validations, each returning at once, then the first progress report and the
  call of \<^verbatim>\<open>getConverter\<close>.
\<close>

definition process :: "format \<Rightarrow> caller \<Rightarrow> File list \<Rightarrow> system \<Rightarrow> system" where
  "process fmt c files s =
     (if length files \<noteq> 1 then
        put c (reset (Returned (createErrorOutput INVALID_OPTIONS (msgExactlyOne fmt)
                 (Some (''Received '' @ string_of_nat (length files) @ '' file(s).''))))) s
      else
        (let file = files ! 0;
             ext = ext_of (file_name file)
         in if ext \<notin> set (validExts fmt) then
              put c (reset (Returned (createErrorOutput FILE_TYPE_INVALID (msgInvalidType fmt)
                       (Some (''Received: '' @
                          (if file_type file \<noteq> '''' then file_type file else file_name file)))))) s
            else
              put c (updateProgress (Finite 5) loading (reset (AwaitingConverter file)))
                (s\<lparr>shared := getConverter c True (shared s)\<rparr>)))"

text \<open>
  Lines 83 to 89: the call resumes once its \<^verbatim>\<open>getConverter\<close> has settled. A rejection
  goes to the \<^verbatim>\<open>catch\<close>; otherwise the first checkpoint, the progress report and
  the invocation of \<^verbatim>\<open>convertToPdf\<close> on the instance. The instance is not \<^verbatim>\<open>null\<close>
  here: line 32 stores it before \<^verbatim>\<open>initialize\<close> is invoked and nothing clears it
  (lemma \<open>resumed_call_finds_instance\<close> below).
\<close>

definition resume :: "format \<Rightarrow> caller \<Rightarrow> system \<Rightarrow> system" where
  "resume fmt c s =
     (case processors s c of
        None \<Rightarrow> s
      | Some p \<Rightarrow>
          (case stage p of
             AwaitingConverter file \<Rightarrow>
               (case returned (shared s) c of
                  None \<Rightarrow> s
                | Some (Inl t) \<Rightarrow> put c (p\<lparr>stage := Returned (caught fmt t)\<rparr>) s
                | Some (Inr u) \<Rightarrow>
                    if checkCancelled p then put c (p\<lparr>stage := Returned cancelled_output\<rparr>) s
                    else
                      put c ((updateProgress (Finite 85) (msgConverting fmt) p)\<lparr>stage := AwaitingConversion file\<rparr>)
                        (s\<lparr>shared := (shared s)\<lparr>converterInstance :=
                              map_option convertToPdf (converterInstance (shared s))\<rparr>\<rparr>))
           | _ \<Rightarrow> s))"

text \<open>
  Lines 89 to 98: \<^verbatim>\<open>convertToPdf\<close> settles and the call resumes. A rejection goes to
  the \<^verbatim>\<open>catch\<close>; otherwise the second checkpoint, the last progress report and the
  result with the derived name.
\<close>

definition convert_settled :: "format \<Rightarrow> caller \<Rightarrow> thrown + blob \<Rightarrow> system \<Rightarrow> system" where
  "convert_settled fmt c r s =
     (case processors s c of
        None \<Rightarrow> s
      | Some p \<Rightarrow>
          (case stage p of
             AwaitingConversion file \<Rightarrow>
               (case r of
                  Inl t \<Rightarrow> put c (p\<lparr>stage := Returned (caught fmt t)\<rparr>) s
                | Inr pdfBlob \<Rightarrow>
                    if checkCancelled p then put c (p\<lparr>stage := Returned cancelled_output\<rparr>) s
                    else
                      (let baseName = replace_ext (extPattern fmt) (file_name file)
                       in put c ((updateProgress (Finite 100) ''Conversion complete!'' p)
                                   \<lparr>stage := Returned (createSuccessOutput pdfBlob (baseName @ ''.pdf'') ''pdf'')\<rparr>) s))
           | _ \<Rightarrow> s))"

text \<open>
  The engine reports progress: the module forwards the report to the callbacks
  it has handed to the engine, each the closure of lines 79 to 81 of the
  processor whose call created the promise. The closure runs wherever that call
  of \<^verbatim>\<open>process\<close> stands by then, also after it has gone on or returned.
\<close>

definition forward_to :: "number \<Rightarrow> string \<Rightarrow> caller \<Rightarrow> system \<Rightarrow> system" where
  "forward_to percent message c s =
     (case processors s c of
        None \<Rightarrow> s
      | Some p \<Rightarrow> put c (onConverterProgress percent message p) s)"

definition report_progress :: "number \<Rightarrow> string \<Rightarrow> system \<Rightarrow> system" where
  "report_progress percent message s =
     fold (forward_to percent message) (progress_targets (shared s))
       (s\<lparr>shared := engine_progress percent message (shared s)\<rparr>)"

text \<open>
  The events of the system. \<open>Process c files\<close> is a call of \<^verbatim>\<open>process\<close> on a new
  processor \<open>c\<close>; it is ignored when \<open>c\<close> names a processor already. \<open>Cancel c\<close> is a
  request to cancel operation \<open>c\<close>. \<open>Resume c\<close> is the continuation of call \<open>c\<close> after
  \<^verbatim>\<open>await getConverter(...)\<close>: it is an event of its own because the continuation
  runs after the promise has settled, also when the instance was ready, and a
  request to cancel may come in between. \<open>ConvertSettles c r\<close> is the end of
  \<^verbatim>\<open>convertToPdf\<close> for call \<open>c\<close> with the continuation of the call. The three others
  are the events of the module. An event that cannot happen in the state (the
  end of an import that no body waits for, a continuation of a call that is not
  suspended there) changes nothing.
\<close>

datatype event =
    Process caller "File list"
  | Cancel caller
  | ImportSettles "thrown option"
  | Progress number string
  | InitializeSettles "thrown option"
  | Resume caller
  | ConvertSettles caller "thrown + blob"

fun step :: "format \<Rightarrow> event \<Rightarrow> system \<Rightarrow> system" where
  "step fmt (Process c files) s = (if processors s c = None then process fmt c files s else s)"
| "step fmt (Cancel c) s =
     (case processors s c of None \<Rightarrow> s | Some p \<Rightarrow> put c (cancel p) s)"
| "step fmt (ImportSettles r) s = s\<lparr>shared := import_settled r (shared s)\<rparr>"
| "step fmt (Progress percent message) s = report_progress percent message s"
| "step fmt (InitializeSettles r) s = s\<lparr>shared := initialize_settled r (shared s)\<rparr>"
| "step fmt (Resume c) s = resume fmt c s"
| "step fmt (ConvertSettles c r) s = convert_settled fmt c r s"

definition run :: "format \<Rightarrow> event list \<Rightarrow> system \<Rightarrow> system" where
  "run fmt es s = fold (step fmt) es s"

text \<open>
  One operation on a module that nothing has used yet, with a healthy engine and
  no cancellation: the call, the import, the engine's progress reports \<open>raws\<close>,
  the end of the initialization, and the conversion giving the blob \<open>b\<close>. A
  report of the engine is an event here and an invocation of the callback of
  lines 79 to 81 there.
\<close>

definition progress_event :: "number \<times> string \<Rightarrow> event" where
  "progress_event raw = Progress (fst raw) (snd raw)"

definition on_report :: "number \<times> string \<Rightarrow> processor \<Rightarrow> processor" where
  "on_report raw p = onConverterProgress (fst raw) (snd raw) p"

definition healthy_operation :: "caller \<Rightarrow> File \<Rightarrow> (number \<times> string) list \<Rightarrow> blob \<Rightarrow> event list" where
  "healthy_operation c f raws b =
     [Process c [f], ImportSettles None] @ map progress_event raws
       @ [InitializeSettles None, Resume c, ConvertSettles c (Inr b)]"

definition stage_of :: "caller \<Rightarrow> system \<Rightarrow> stage option" where
  "stage_of c s = map_option stage (processors s c)"

definition emitted_of :: "caller \<Rightarrow> system \<Rightarrow> (rat \<times> string) list" where
  "emitted_of c s = (case processors s c of None \<Rightarrow> [] | Some p \<Rightarrow> emitted p)"


section \<open>The shared engine: one initialization, one outcome\<close>

subsection \<open>Settling a promise\<close>

lemma returned_fold_return_to:
  "returned (fold (\<lambda>c. return_to c r) cs m) c = (if c \<in> set cs then Some r else returned m c)"
  by (induction cs arbitrary: m) (auto simp: return_to_def)

lemma fold_return_to_other [simp]:
  "promise_ref (fold (\<lambda>c. return_to c r) cs m) = promise_ref m"
  "converterInstance (fold (\<lambda>c. return_to c r) cs m) = converterInstance m"
  "promises (fold (\<lambda>c. return_to c r) cs m) = promises m"
  "delivered (fold (\<lambda>c. return_to c r) cs m) = delivered m"
  "getConverter_calls (fold (\<lambda>c. return_to c r) cs m) = getConverter_calls m"
  "initialize_count (fold (\<lambda>c. return_to c r) cs m) = initialize_count m"
  by (induction cs arbitrary: m) (auto simp: return_to_def)

lemma settle_fields [simp]:
  "promise_ref (settle i p m) = promise_ref m"
  "converterInstance (settle i p m) = converterInstance m"
  "promises (settle i p m) = (promises m)[i := (promises m ! i)\<lparr>promise_state := p, waiting := []\<rparr>]"
  "delivered (settle i p m) = delivered m"
  "getConverter_calls (settle i p m) = getConverter_calls m"
  "initialize_count (settle i p m) = initialize_count m"
  by (simp_all add: settle_def update_flight_def Let_def)

lemma returned_settle:
  "returned (settle i p m) c =
     (if c \<in> set (waiting (promises m ! i))
      then Some (case p of Rejected t \<Rightarrow> Inl t | _ \<Rightarrow> Inr ())
      else returned m c)"
  by (simp add: settle_def update_flight_def Let_def returned_fold_return_to)

subsection \<open>With no promise, and with one\<close>

lemma no_promise_steps:
  assumes "promises m = []"
  shows "import_settled r m = m" and "initialize_settled r m = m"
    and "engine_progress percent message m = m"
  using assms
  by (simp_all add: import_settled_def initialize_settled_def engine_progress_def
      progress_targets_def)

lemma one_promise_steps:
  assumes "promises m = [f]"
  shows "import_settled r m = import_resumes r 0 m"
    and "initialize_settled r m = initialize_resumes r 0 m"
    and "progress_targets m = (if handed f then (case callback f of None \<Rightarrow> [] | Some c \<Rightarrow> [c]) else [])"
    and "awaiting m = waiting f"
  using assms
  by (simp_all add: import_settled_def initialize_settled_def progress_targets_def awaiting_def)

subsection \<open>The invariant holds in every run\<close>

lemma module_inv_init: "module_inv module_init"
  by (simp add: module_inv_def module_init_def)

lemma module_inv_cases:
  assumes "module_inv m"
  obtains (none) "promise_ref m = None" and "promises m = []" and "converterInstance m = None"
      and "initialize_count m = 0" and "\<forall>c. returned m c = None"
    | (one) f where "promise_ref m = Some 0" and "promises m = [f]" and "flight_inv f m"
proof (cases "promise_ref m")
  case None
  then show ?thesis using assms none by (simp add: module_inv_def)
next
  case (Some i)
  then have i: "i = 0" and len: "length (promises m) = 1" and fl: "flight_inv (promises m ! 0) m"
    using assms by (simp_all add: module_inv_def)
  from len obtain f where f: "promises m = [f]"
    by (cases "promises m") simp_all
  show ?thesis
    using one [of f] Some i f fl by simp
qed

lemma module_inv_one:
  assumes "promise_ref m = Some 0" and "promises m = [f]" and "flight_inv f m"
  shows "module_inv m"
  using assms by (simp add: module_inv_def)

lemma module_inv_acquire:
  assumes "module_inv m"
  shows "module_inv (getConverter c b m)"
  using assms
proof (cases rule: module_inv_cases)
  case none
  then show ?thesis
    by (simp add: module_inv_def flight_inv_def instance_inv_def getConverter_def
        await_promise_def update_flight_def Let_def)
next
  case (one f)
  then show ?thesis
    by (cases "promise_state f")
      (auto simp: module_inv_def flight_inv_def instance_inv_def getConverter_def
        await_promise_def update_flight_def Let_def return_to_def isReady_def
        split: option.splits if_splits)
qed

lemma module_inv_import:
  assumes "module_inv m"
  shows "module_inv (import_settled r m)"
  using assms
proof (cases rule: module_inv_cases)
  case none
  then show ?thesis using assms by (simp add: no_promise_steps)
next
  case (one f)
  show ?thesis
    unfolding one_promise_steps [OF one(2)]
    using one
    by (cases "promise_state f"; cases r)
      (auto simp: module_inv_def flight_inv_def instance_inv_def import_resumes_def
        importing_def update_flight_def returned_settle initialize_def
        getLibreOfficeConverter_def split: if_splits)
qed

lemma module_inv_progress:
  assumes "module_inv m"
  shows "module_inv (engine_progress percent message m)"
  using assms
  by (auto simp: module_inv_def flight_inv_def instance_inv_def engine_progress_def
      split: option.splits promise.splits if_splits)

lemma module_inv_initialize:
  assumes "module_inv m"
  shows "module_inv (initialize_settled r m)"
  using assms
proof (cases rule: module_inv_cases)
  case none
  then show ?thesis using assms by (simp add: no_promise_steps)
next
  case (one f)
  show ?thesis
    unfolding one_promise_steps [OF one(2)]
    using one
    by (cases "promise_state f"; cases r)
      (auto simp: module_inv_def flight_inv_def instance_inv_def initialize_resumes_def
        initializing_def update_flight_def returned_settle split: if_splits)
qed

lemma module_inv_step: "module_inv m \<Longrightarrow> module_inv (module_step e m)"
  by (cases e)
    (simp_all add: module_inv_acquire module_inv_import module_inv_progress module_inv_initialize)

lemma module_inv_fold: "module_inv m \<Longrightarrow> module_inv (fold module_step es m)"
  by (induction es arbitrary: m) (simp_all add: module_inv_step)

lemma module_inv_run: "module_inv (module_run es module_init)"
  by (simp add: module_run_def module_inv_fold module_inv_init)

lemma returned_instance_ready:
  assumes "module_inv m" and "returned m c = Some (Inr ())"
  shows "\<exists>e. converterInstance m = Some e \<and> ready e"
  using assms(1)
proof (cases rule: module_inv_cases)
  case none
  then show ?thesis using assms(2) by simp
next
  case (one f)
  then show ?thesis using assms(2)
    by (cases "promise_state f") (auto simp: flight_inv_def)
qed

lemma module_run_append: "module_run (es @ es') m = module_run es' (module_run es m)"
  by (simp add: module_run_def)

lemma module_run_Cons: "module_run (e # es) m = module_run es (module_step e m)"
  by (simp add: module_run_def)

lemma module_run_Nil: "module_run [] m = m"
  by (simp add: module_run_def)

subsection \<open>While the promise is pending\<close>

lemma is_acquire_during_init: "is_acquire e \<Longrightarrow> during_init e"
  by (cases e) simp_all

lemma callers_of_Cons: "callers_of (ev # es) = callers_of [ev] @ callers_of es"
  by (cases ev) simp_all

lemma feed_of_Cons: "feed_of (ev # es) = feed_of [ev] @ feed_of es"
  by (cases ev) simp_all

lemma heard_simps [simp]:
  "heard f [] = []"
  "heard (f\<lparr>waiting := w\<rparr>) feed = heard f feed"
  "heard f (feed @ feed') = heard f feed @ heard f feed'"
  by (simp_all add: heard_def split: option.splits)

lemma pending_step:
  assumes "promise_ref m = Some 0" and "promises m = [f]" and "promise_state f = Pending"
    and "\<forall>e. converterInstance m = Some e \<longrightarrow> \<not> ready e"
    and "during_init ev"
  shows "promise_ref (module_step ev m) = Some 0"
    and "promises (module_step ev m) = [f\<lparr>waiting := waiting f @ callers_of [ev]\<rparr>]"
    and "converterInstance (module_step ev m) = converterInstance m"
    and "returned (module_step ev m) = returned m"
    and "initialize_count (module_step ev m) = initialize_count m"
    and "delivered (module_step ev m) = delivered m @ heard f (feed_of [ev])"
  using assms
  by (cases ev; auto simp: getConverter_def await_promise_def update_flight_def Let_def
        isReady_def engine_progress_def progress_targets_def heard_def
        split: option.splits)+

lemma pending_run:
  assumes "promise_ref m = Some 0" and "promises m = [f]" and "promise_state f = Pending"
    and "\<forall>e. converterInstance m = Some e \<longrightarrow> \<not> ready e"
    and "\<forall>ev \<in> set es. during_init ev"
  shows "promise_ref (module_run es m) = Some 0 \<and>
         promises (module_run es m) = [f\<lparr>waiting := waiting f @ callers_of es\<rparr>] \<and>
         converterInstance (module_run es m) = converterInstance m \<and>
         returned (module_run es m) = returned m \<and>
         initialize_count (module_run es m) = initialize_count m \<and>
         delivered (module_run es m) = delivered m @ heard f (feed_of es)"
  using assms
proof (induction es arbitrary: m f)
  case Nil
  then show ?case by (simp add: module_run_Nil)
next
  case (Cons ev es)
  have d: "during_init ev" and rest: "\<forall>ev \<in> set es. during_init ev"
    using Cons.prems(5) by simp_all
  note st = pending_step [OF Cons.prems(1-4) d]
  have pend: "promise_state (f\<lparr>waiting := waiting f @ callers_of [ev]\<rparr>) = Pending"
    using Cons.prems(3) by simp
  have nr: "\<forall>e. converterInstance (module_step ev m) = Some e \<longrightarrow> \<not> ready e"
    using st(3) Cons.prems(4) by simp
  note ih = Cons.IH [OF st(1) st(2) pend nr rest]
  show ?case
    unfolding module_run_Cons
    using ih st(3-6)
    by (simp add: callers_of_Cons [of ev es] feed_of_Cons [of ev es])
qed

lemma first_acquire:
  "getConverter c0 b0 module_init =
     \<lparr>promise_ref = Some 0, converterInstance = None,
      promises = [\<lparr>promise_state = Pending, callback = (if b0 then Some c0 else None),
                   handed = False, waiting = [c0]\<rparr>],
      returned = (\<lambda>c. None), delivered = [], getConverter_calls = 1, initialize_count = 0\<rparr>"
  by (simp add: getConverter_def await_promise_def update_flight_def module_init_def Let_def)

lemma run_to_import:
  assumes "\<forall>ev \<in> set es1. is_acquire ev"
  shows "promise_ref (module_run (Acquire c0 b0 # es1) module_init) = Some 0 \<and>
         promises (module_run (Acquire c0 b0 # es1) module_init)
           = [\<lparr>promise_state = Pending, callback = (if b0 then Some c0 else None),
               handed = False, waiting = c0 # callers_of es1\<rparr>] \<and>
         converterInstance (module_run (Acquire c0 b0 # es1) module_init) = None \<and>
         returned (module_run (Acquire c0 b0 # es1) module_init) = (\<lambda>c. None) \<and>
         initialize_count (module_run (Acquire c0 b0 # es1) module_init) = 0 \<and>
         delivered (module_run (Acquire c0 b0 # es1) module_init) = []"
proof -
  let ?f = "\<lparr>promise_state = Pending, callback = (if b0 then Some c0 else None),
             handed = False, waiting = [c0]\<rparr>"
  let ?m1 = "module_step (Acquire c0 b0) module_init"
  have r: "promise_ref ?m1 = Some 0" and ps: "promises ?m1 = [?f]"
    and pe: "promise_state ?f = Pending"
    and i: "\<forall>e. converterInstance ?m1 = Some e \<longrightarrow> \<not> ready e"
    by (simp_all add: first_acquire)
  have d: "\<forall>ev \<in> set es1. during_init ev"
    using assms is_acquire_during_init by blast
  show ?thesis
    unfolding module_run_Cons
    using pending_run [OF r ps pe i d]
    by (simp add: first_acquire heard_def)
qed

lemma run_to_initialize:
  assumes "\<forall>ev \<in> set es1. is_acquire ev" and "\<forall>ev \<in> set mid. during_init ev"
  shows "promise_ref (module_run (Acquire c0 b0 # es1 @ [ImportDone None] @ mid) module_init) = Some 0 \<and>
         promises (module_run (Acquire c0 b0 # es1 @ [ImportDone None] @ mid) module_init)
           = [\<lparr>promise_state = Pending, callback = (if b0 then Some c0 else None),
               handed = True, waiting = c0 # callers_of es1 @ callers_of mid\<rparr>] \<and>
         converterInstance (module_run (Acquire c0 b0 # es1 @ [ImportDone None] @ mid) module_init)
           = Some (initialize getLibreOfficeConverter) \<and>
         returned (module_run (Acquire c0 b0 # es1 @ [ImportDone None] @ mid) module_init) = (\<lambda>c. None) \<and>
         initialize_count (module_run (Acquire c0 b0 # es1 @ [ImportDone None] @ mid) module_init) = 1 \<and>
         delivered (module_run (Acquire c0 b0 # es1 @ [ImportDone None] @ mid) module_init)
           = (if b0 then map (Pair c0) (feed_of mid) else [])"
proof -
  let ?f = "\<lparr>promise_state = Pending, callback = (if b0 then Some c0 else None),
             handed = True, waiting = c0 # callers_of es1\<rparr>"
  let ?m1 = "module_run (Acquire c0 b0 # es1) module_init"
  let ?m2 = "module_step (ImportDone None) ?m1"
  note a = run_to_import [OF assms(1), of c0 b0]
  have m2: "import_settled None ?m1
      = ?m1\<lparr>converterInstance := Some (initialize getLibreOfficeConverter),
            initialize_count := 1, promises := [?f]\<rparr>"
    using a
    by (simp add: one_promise_steps(1) [of ?m1] import_resumes_def importing_def update_flight_def)
  have r: "promise_ref ?m2 = Some 0" and ps: "promises ?m2 = [?f]"
    and pe: "promise_state ?f = Pending"
    and i: "\<forall>e. converterInstance ?m2 = Some e \<longrightarrow> \<not> ready e"
    using a by (simp_all add: m2 initialize_def getLibreOfficeConverter_def)
  have split: "module_run (Acquire c0 b0 # es1 @ [ImportDone None] @ mid) module_init
      = module_run mid ?m2"
    using module_run_append [of "Acquire c0 b0 # es1" "ImportDone None # mid" module_init]
    by (simp add: module_run_Cons)
  show ?thesis
    unfolding split
    using pending_run [OF r ps pe i assms(2)] a
    by (simp add: m2 heard_def)
qed

lemmas module_eval =
  module_run_def module_init_def getConverter_def await_promise_def update_flight_def
  import_settled_def import_resumes_def engine_progress_def progress_targets_def
  initialize_settled_def initialize_resumes_def settle_def return_to_def importing_def
  initializing_def isReady_def initialize_def getLibreOfficeConverter_def
  converterPromise_def awaiting_def outcome_def Let_def

subsection \<open>Single flight\<close>

text \<open>
  Claim C1, as amended. In every run whatsoever line 30 creates at most one
  promise, \<^verbatim>\<open>initialize\<close> is invoked at most once, and any two calls that have
  settled have settled alike. A first call of \<^verbatim>\<open>getConverter\<close> finds the module
  untouched, both variables \<^verbatim>\<open>null\<close>; it sets \<^verbatim>\<open>converterPromise\<close> before it suspends,
  so the other calls find the promise pending: the calls of \<open>es1\<close> follow before
  the import settles, and the events of \<open>mid\<close> (more calls, progress reports) while
  \<^verbatim>\<open>initialize\<close> runs. When the import resolves and \<^verbatim>\<open>initialize\<close> settles with \<open>r\<close>,
  it has been invoked exactly once, every one of the calls has settled with the
  same outcome, the instance for success and the reason \<open>r\<close> for failure, and the
  instance is ready exactly on success. When the import itself rejects with \<open>t\<close>,
  \<^verbatim>\<open>initialize\<close> has not been invoked at all, and every call has settled with \<open>t\<close>.
\<close>

theorem single_flight:
  assumes "\<forall>ev \<in> set es1. is_acquire ev" and "\<forall>ev \<in> set mid. during_init ev"
  shows "length (promises (module_run es module_init)) \<le> 1
    \<and> initialize_count (module_run es module_init) \<le> 1
    \<and> (\<forall>c c' x x'. returned (module_run es module_init) c = Some x
           \<and> returned (module_run es module_init) c' = Some x' \<longrightarrow> x = x')
    \<and> initialize_count
        (module_run (Acquire c0 b0 # es1 @ [ImportDone None] @ mid @ [InitDone r]) module_init) = 1
    \<and> (\<forall>c \<in> set (c0 # callers_of es1 @ callers_of mid).
         returned (module_run (Acquire c0 b0 # es1 @ [ImportDone None] @ mid @ [InitDone r]) module_init) c
           = Some (outcome r))
    \<and> map_option ready
        (converterInstance
          (module_run (Acquire c0 b0 # es1 @ [ImportDone None] @ mid @ [InitDone r]) module_init))
        = Some (r = None)
    \<and> initialize_count (module_run (Acquire c0 b0 # es1 @ [ImportDone (Some t)]) module_init) = 0
    \<and> (\<forall>c \<in> set (c0 # callers_of es1).
         returned (module_run (Acquire c0 b0 # es1 @ [ImportDone (Some t)]) module_init) c
           = Some (Inl t))"
proof -
  have inv: "module_inv (module_run es module_init)"
    by (rule module_inv_run)
  have few: "length (promises (module_run es module_init)) \<le> 1"
    using inv by (cases rule: module_inv_cases) simp_all
  have one: "initialize_count (module_run es module_init) \<le> 1"
    using inv
  proof (cases rule: module_inv_cases)
    case none
    then show ?thesis by simp
  next
    case (one f)
    then show ?thesis
      by (cases "promise_state f") (auto simp: flight_inv_def instance_inv_def split: if_splits)
  qed
  have agree: "\<forall>c c' x x'. returned (module_run es module_init) c = Some x
           \<and> returned (module_run es module_init) c' = Some x' \<longrightarrow> x = x'"
    using inv
  proof (cases rule: module_inv_cases)
    case none
    then show ?thesis by simp
  next
    case (one f)
    then show ?thesis
      by (cases "promise_state f") (auto simp: flight_inv_def)
  qed
  let ?m = "module_run (Acquire c0 b0 # es1 @ [ImportDone None] @ mid) module_init"
  note b = run_to_initialize [OF assms, of c0 b0]
  have ps: "promises ?m = [\<lparr>promise_state = Pending, callback = (if b0 then Some c0 else None),
               handed = True, waiting = c0 # callers_of es1 @ callers_of mid\<rparr>]"
    using b by simp
  have "module_run (Acquire c0 b0 # es1 @ [ImportDone None] @ mid @ [InitDone r]) module_init
      = module_step (InitDone r) ?m"
    using module_run_append [of "Acquire c0 b0 # es1 @ [ImportDone None] @ mid" "[InitDone r]" module_init]
    by (simp add: module_run_Cons module_run_Nil)
  also have "\<dots> = initialize_resumes r 0 ?m"
    by (simp only: module_step.simps one_promise_steps(2) [OF ps])
  finally have fin: "module_run (Acquire c0 b0 # es1 @ [ImportDone None] @ mid @ [InitDone r]) module_init
      = initialize_resumes r 0 ?m" .
  have cnt: "initialize_count (initialize_resumes r 0 ?m) = 1"
    using b by (cases r) (simp_all add: initialize_resumes_def initializing_def)
  have ret: "\<forall>c \<in> set (c0 # callers_of es1 @ callers_of mid).
      returned (initialize_resumes r 0 ?m) c = Some (outcome r)"
    using b by (cases r)
      (simp_all add: initialize_resumes_def initializing_def returned_settle outcome_def)
  have rdy: "map_option ready (converterInstance (initialize_resumes r 0 ?m)) = Some (r = None)"
    using b by (cases r)
      (simp_all add: initialize_resumes_def initializing_def initialize_def
         getLibreOfficeConverter_def)
  let ?n = "module_run (Acquire c0 b0 # es1) module_init"
  note a = run_to_import [OF assms(1), of c0 b0]
  have ps': "promises ?n = [\<lparr>promise_state = Pending, callback = (if b0 then Some c0 else None),
               handed = False, waiting = c0 # callers_of es1\<rparr>]"
    using a by simp
  have "module_run (Acquire c0 b0 # es1 @ [ImportDone (Some t)]) module_init
      = module_step (ImportDone (Some t)) ?n"
    using module_run_append [of "Acquire c0 b0 # es1" "[ImportDone (Some t)]" module_init]
    by (simp add: module_run_Cons module_run_Nil)
  also have "\<dots> = import_resumes (Some t) 0 ?n"
    by (simp only: module_step.simps one_promise_steps(1) [OF ps'])
  finally have fin': "module_run (Acquire c0 b0 # es1 @ [ImportDone (Some t)]) module_init
      = import_resumes (Some t) 0 ?n" .
  have cnt': "initialize_count (import_resumes (Some t) 0 ?n) = 0"
    using a by (simp add: import_resumes_def importing_def)
  have ret': "\<forall>c \<in> set (c0 # callers_of es1).
      returned (import_resumes (Some t) 0 ?n) c = Some (Inl t)"
    using a by (simp add: import_resumes_def importing_def returned_settle)
  show ?thesis
    using few one agree cnt ret rdy cnt' ret' unfolding fin fin' by blast
qed

text \<open>
  Three calls, one of them while \<^verbatim>\<open>initialize\<close> runs: one invocation, and the same
  instance for all three.
\<close>

theorem three_callers_one_initialize:
  "initialize_count
     (module_run [Acquire 1 True, Acquire 2 True, ImportDone None,
                  EngineProgress (Finite 40) ''Loading'', Acquire 3 False, InitDone None] module_init) = 1
   \<and> returned
     (module_run [Acquire 1 True, Acquire 2 True, ImportDone None,
                  EngineProgress (Finite 40) ''Loading'', Acquire 3 False, InitDone None] module_init) 1
       = Some (Inr ())
   \<and> returned
     (module_run [Acquire 1 True, Acquire 2 True, ImportDone None,
                  EngineProgress (Finite 40) ''Loading'', Acquire 3 False, InitDone None] module_init) 2
       = Some (Inr ())
   \<and> returned
     (module_run [Acquire 1 True, Acquire 2 True, ImportDone None,
                  EngineProgress (Finite 40) ''Loading'', Acquire 3 False, InitDone None] module_init) 3
       = Some (Inr ())"
  using single_flight [of "[Acquire 2 True]" "[EngineProgress (Finite 40) ''Loading'', Acquire 3 False]"
      "[]" 1 True None "ErrorInstance []"]
  by (simp add: outcome_def)

text \<open>
  Two calls, and the import rejects: both calls have settled, with the reason of
  the import, and \<^verbatim>\<open>initialize\<close> was invoked zero times, not once.
\<close>

theorem import_rejects_no_initialize:
  "initialize_count
     (module_run [Acquire 1 True, Acquire 2 True, ImportDone (Some (ErrorInstance ''Failed to fetch''))]
        module_init) = 0
   \<and> awaiting
     (module_run [Acquire 1 True, Acquire 2 True, ImportDone (Some (ErrorInstance ''Failed to fetch''))]
        module_init) = []
   \<and> returned
     (module_run [Acquire 1 True, Acquire 2 True, ImportDone (Some (ErrorInstance ''Failed to fetch''))]
        module_init) 1 = Some (Inl (ErrorInstance ''Failed to fetch''))
   \<and> returned
     (module_run [Acquire 1 True, Acquire 2 True, ImportDone (Some (ErrorInstance ''Failed to fetch''))]
        module_init) 2 = Some (Inl (ErrorInstance ''Failed to fetch''))"
  by (simp add: module_eval)

subsection \<open>A failure stays\<close>

lemma rejected_step:
  assumes "module_inv m" and "converterPromise m = Some (Rejected t)"
  shows "converterPromise (module_step ev m) = Some (Rejected t) \<and>
         initialize_count (module_step ev m) = initialize_count m \<and>
         (\<forall>c. returned (module_step ev m) c =
            (if c \<in> set (callers_of [ev]) then Some (Inl t) else returned m c))"
  using assms(1)
proof (cases rule: module_inv_cases)
  case none
  then show ?thesis using assms(2) by (simp add: converterPromise_def)
next
  case (one f)
  have rej: "promise_state f = Rejected t"
    using one assms(2) by (simp add: converterPromise_def)
  have nr: "\<forall>e. converterInstance m = Some e \<longrightarrow> \<not> ready e"
    using one(3) rej by (auto simp: flight_inv_def instance_inv_def split: if_splits)
  show ?thesis
    using one rej nr
    by (cases ev)
      (auto simp: converterPromise_def getConverter_def await_promise_def Let_def isReady_def
        return_to_def one_promise_steps(1,2) [OF one(2)] import_resumes_def importing_def
        initialize_resumes_def initializing_def engine_progress_def split: option.splits)
qed

lemma rejected_run:
  assumes "module_inv m" and "converterPromise m = Some (Rejected t)"
  shows "converterPromise (module_run es m) = Some (Rejected t) \<and>
         initialize_count (module_run es m) = initialize_count m \<and>
         (\<forall>c. returned (module_run es m) c =
            (if c \<in> set (callers_of es) then Some (Inl t) else returned m c))"
  using assms
proof (induction es arbitrary: m)
  case Nil
  then show ?case by (simp add: module_run_Nil)
next
  case (Cons ev es)
  note st = rejected_step [OF Cons.prems, of ev]
  note ih = Cons.IH [OF module_inv_step [OF Cons.prems(1), of ev] st [THEN conjunct1]]
  show ?case
    unfolding module_run_Cons
    using ih st
    by (auto simp: callers_of_Cons [of ev es])
qed

text \<open>
  Claim C2, as amended. Once the promise is rejected with \<open>t\<close>, whatever happens
  next (the events \<open>es2\<close>) it stays rejected with \<open>t\<close>, \<^verbatim>\<open>initialize\<close> is not invoked
  again, and every later call of \<^verbatim>\<open>getConverter\<close> settles with the same \<open>t\<close>: the
  module has no path back to \<^verbatim>\<open>converterPromise = null\<close>.
\<close>

theorem failure_is_cached:
  assumes "converterPromise (module_run es1 module_init) = Some (Rejected t)"
  shows "converterPromise (module_run (es1 @ es2) module_init) = Some (Rejected t)
    \<and> initialize_count (module_run (es1 @ es2) module_init)
        = initialize_count (module_run es1 module_init)
    \<and> (\<forall>c \<in> set (callers_of es2).
          returned (module_run (es1 @ es2) module_init) c = Some (Inl t))"
  using rejected_run [OF module_inv_run assms, of es2]
  by (simp add: module_run_append)

text \<open>After a failed initialization, a second and a third call, and stray events between them.\<close>

theorem cached_failure_example:
  "converterPromise
     (module_run [Acquire 1 True, ImportDone None, InitDone (Some (ErrorInstance ''boom''))]
        module_init) = Some (Rejected (ErrorInstance ''boom''))
   \<and> returned
     (module_run ([Acquire 1 True, ImportDone None, InitDone (Some (ErrorInstance ''boom''))]
                  @ [Acquire 2 True, ImportDone None, InitDone None, Acquire 3 True]) module_init) 3
       = Some (Inl (ErrorInstance ''boom''))"
proof -
  have h: "converterPromise
     (module_run [Acquire 1 True, ImportDone None, InitDone (Some (ErrorInstance ''boom''))]
        module_init) = Some (Rejected (ErrorInstance ''boom''))"
    by (simp add: module_eval)
  show ?thesis
    using h failure_is_cached [OF h, of "[Acquire 2 True, ImportDone None, InitDone None, Acquire 3 True]"]
    by simp
qed

text \<open>
  \<^verbatim>\<open>initialize\<close> fails once; the next call does not retry: it gets the cached
  reason, \<^verbatim>\<open>initialize\<close> has still been invoked once, and the promise is still the
  rejected one.
\<close>

theorem no_retry_after_failed_initialize:
  "returned
     (module_run [Acquire 1 True, ImportDone None, InitDone (Some (ErrorInstance ''boom'')),
                  Acquire 2 True] module_init) 2 = Some (Inl (ErrorInstance ''boom''))
   \<and> initialize_count
     (module_run [Acquire 1 True, ImportDone None, InitDone (Some (ErrorInstance ''boom'')),
                  Acquire 2 True] module_init) = 1
   \<and> converterPromise
     (module_run [Acquire 1 True, ImportDone None, InitDone (Some (ErrorInstance ''boom'')),
                  Acquire 2 True] module_init) = Some (Rejected (ErrorInstance ''boom''))"
  by (simp add: module_eval)

subsection \<open>Who hears the engine's progress\<close>

text \<open>
  Claim C5, as amended. While \<^verbatim>\<open>initialize\<close> runs, the progress reports of the engine
  (\<open>feed_of mid\<close>) go, each and in order, to the callback of the call that created
  the promise, when it passed one, and to no other caller: the calls that
  attached, before or after the import settled, are suspended on the promise
  (\<open>awaiting\<close>) and are delivered nothing.
\<close>

theorem progress_to_initiator_only:
  assumes "\<forall>ev \<in> set es1. is_acquire ev" and "\<forall>ev \<in> set mid. during_init ev"
  shows "delivered (module_run (Acquire c0 b0 # es1 @ [ImportDone None] @ mid) module_init)
           = (if b0 then map (Pair c0) (feed_of mid) else [])
    \<and> awaiting (module_run (Acquire c0 b0 # es1 @ [ImportDone None] @ mid) module_init)
           = c0 # callers_of es1 @ callers_of mid"
  using run_to_initialize [OF assms, of c0 b0] by (simp add: awaiting_def)

theorem initiator_progress_example:
  "delivered
     (module_run [Acquire 1 True, Acquire 2 True, ImportDone None, Acquire 3 True,
                  EngineProgress (Finite 50) ''Loading'', EngineProgress (Finite 90) ''Almost''] module_init)
     = [(1, Finite 50, ''Loading''), (1, Finite 90, ''Almost'')]"
  using progress_to_initiator_only [of "[Acquire 2 True]"
      "[Acquire 3 True, EngineProgress (Finite 50) ''Loading'', EngineProgress (Finite 90) ''Almost'']" 1 True]
  by simp

text \<open>
  Callers 2 and 3 wait on the promise with caller 1, each with a callback of its
  own; the engine's report is delivered to caller 1 alone.
\<close>

theorem attached_caller_gets_no_progress:
  "awaiting
     (module_run [Acquire 1 True, Acquire 2 True, ImportDone None, Acquire 3 True,
                  EngineProgress (Finite 50) ''Loading''] module_init) = [1, 2, 3]
   \<and> delivered
     (module_run [Acquire 1 True, Acquire 2 True, ImportDone None, Acquire 3 True,
                  EngineProgress (Finite 50) ''Loading''] module_init) = [(1, Finite 50, ''Loading'')]"
  by (simp add: module_eval)

section \<open>File names: the extension and the suggested name\<close>

declare string_of_nat.simps [simp del]

lemma toLowerChar_dot [simp]: "toLowerChar c = CHR ''.'' \<longleftrightarrow> c = CHR ''.''"
  by (auto simp: toLowerChar_def split: if_splits)

lemma dot_toLowerChar [simp]: "CHR ''.'' = toLowerChar c \<longleftrightarrow> c = CHR ''.''"
  using toLowerChar_dot [of c] by (auto simp del: toLowerChar_dot)

lemma toLowerChar_of_dot [simp]: "toLowerChar CHR ''.'' = CHR ''.''"
  by simp

lemma dot_in_toLowerCase [simp]: "CHR ''.'' \<in> set (toLowerCase s) \<longleftrightarrow> CHR ''.'' \<in> set s"
  by (auto simp: toLowerCase_def)

lemma toLowerCase_simps [simp]:
  "toLowerCase [] = []"
  "toLowerCase (c # cs) = toLowerChar c # toLowerCase cs"
  "toLowerCase (xs @ ys) = toLowerCase xs @ toLowerCase ys"
  by (simp_all add: toLowerCase_def)

subsection \<open>The last segment of a name\<close>

lemma split_on_not_Nil [simp]: "split_on sep s \<noteq> []"
  by (induction s) (auto split: list.splits)

lemma split_on_no_sep: "sep \<notin> set s \<Longrightarrow> split_on sep s = [s]"
  by (induction s) (auto split: list.splits)

lemma split_on_two: "sep \<in> set s \<Longrightarrow> 2 \<le> length (split_on sep s)"
proof (induction s)
  case Nil
  then show ?case by simp
next
  case (Cons c cs)
  show ?case
  proof (cases "c = sep")
    case True
    then show ?thesis
      using split_on_not_Nil [of sep cs] by (cases "split_on sep cs") simp_all
  next
    case False
    then have "2 \<le> length (split_on sep cs)"
      using Cons by simp
    then show ?thesis
      using False by (cases "split_on sep cs") simp_all
  qed
qed

lemma last_split_on_Cons:
  assumes "sep \<in> set cs"
  shows "last (split_on sep (c # cs)) = last (split_on sep cs)"
proof -
  from split_on_two [OF assms] obtain seg seg' segs where "split_on sep cs = seg # seg' # segs"
    by (cases "split_on sep cs"; cases "tl (split_on sep cs)") auto
  then show ?thesis by simp
qed

lemma last_split_on_append:
  "last (split_on sep (xs @ sep # ys)) = last (split_on sep ys)"
proof (induction xs)
  case Nil
  then show ?case by simp
next
  case (Cons c xs)
  have "sep \<in> set (xs @ sep # ys)" by simp
  from last_split_on_Cons [OF this, of c] Cons show ?case by simp
qed

lemma ext_of_last: "ext_of n = toLowerCase (last (split_on CHR ''.'' n))"
  by (simp add: ext_of_def pop_def Let_def)

lemma ext_of_no_dot: "CHR ''.'' \<notin> set n \<Longrightarrow> ext_of n = toLowerCase n"
  by (simp add: ext_of_last split_on_no_sep)

lemma ext_of_dotted: "CHR ''.'' \<notin> set e \<Longrightarrow> ext_of (base @ CHR ''.'' # e) = toLowerCase e"
  by (simp add: ext_of_last last_split_on_append split_on_no_sep)

subsection \<open>Where the pattern matches\<close>

lemma replace_ext_no_dot: "CHR ''.'' \<notin> set n \<Longrightarrow> replace_ext alts n = n"
  by (induction n) (auto simp: matches_here_def)

lemma no_match_inside:
  assumes "plain_alts alts"
  shows "\<not> matches_here alts (c # base @ CHR ''.'' # e)"
proof
  assume "matches_here alts (c # base @ CHR ''.'' # e)"
  then obtain alt where a: "alt \<in> set alts"
    and eq: "toLowerCase (c # base @ CHR ''.'' # e) = toLowerCase (CHR ''.'' # alt)"
    by (auto simp: matches_here_def)
  from eq have "toLowerCase base @ CHR ''.'' # toLowerCase e = toLowerCase alt"
    by simp
  then have "CHR ''.'' \<in> set (toLowerCase alt)"
    by (metis in_set_conv_decomp)
  with a assms show False
    by (simp add: plain_alts_def)
qed

lemma replace_ext_dotted:
  assumes "plain_alts alts" and "toLowerCase e \<in> set alts"
  shows "replace_ext alts (base @ CHR ''.'' # e) = base"
proof (induction base)
  case Nil
  have "toLowerCase (toLowerCase e) = toLowerCase e"
    using assms by (simp add: plain_alts_def)
  then have "matches_here alts (CHR ''.'' # e)"
    using assms(2) by (auto simp: matches_here_def intro!: bexI [of _ "toLowerCase e"])
  then show ?case by simp
next
  case (Cons c base)
  then show ?case
    using no_match_inside [OF assms(1), of c base e] by simp
qed

lemma plain_validExts: "plain_alts (validExts fmt)"
  by (cases fmt) (simp_all add: plain_alts_def toLowerChar_def)

lemma extPattern_validExts: "extPattern fmt = validExts fmt"
  by (cases fmt) simp_all

lemma valid_ext_no_dot: "toLowerCase e \<in> set (validExts fmt) \<Longrightarrow> CHR ''.'' \<notin> set e"
  using plain_validExts [of fmt] dot_in_toLowerCase [of e]
  unfolding plain_alts_def by blast

lemma valid_dotted_name:
  assumes "n = base @ ''.'' @ e" and "toLowerCase e \<in> set (validExts fmt)"
  shows "ext_of n \<in> set (validExts fmt)"
    and "replace_ext (extPattern fmt) n = base"
proof -
  have nd: "CHR ''.'' \<notin> set e"
    using assms(2) by (rule valid_ext_no_dot)
  have n: "n = base @ CHR ''.'' # e"
    using assms(1) by simp
  show "ext_of n \<in> set (validExts fmt)"
    unfolding n ext_of_dotted [OF nd] by (rule assms(2))
  show "replace_ext (extPattern fmt) n = base"
    unfolding n extPattern_validExts
    by (rule replace_ext_dotted [OF plain_validExts assms(2)])
qed

lemmas name_eval =
  ext_of_def pop_def toLowerCase_def toLowerChar_def matches_here_def Let_def

section \<open>The pipeline\<close>

subsection \<open>Runs, and the three ways out of the validation\<close>

lemma run_Nil: "run fmt [] s = s"
  by (simp add: run_def)

lemma run_Cons: "run fmt (e # es) s = run fmt es (step fmt e s)"
  by (simp add: run_def)

lemma run_append: "run fmt (es @ es') s = run fmt es' (run fmt es s)"
  by (simp add: run_def)

lemma process_wrong_count:
  assumes "length files \<noteq> 1"
  shows "process fmt c files s =
    put c \<lparr>stage = Returned (Failure INVALID_OPTIONS (msgExactlyOne fmt)
              (Some (''Received '' @ string_of_nat (length files) @ '' file(s).''))),
           cancelled = False, emitted = []\<rparr> s"
  using assms by (simp add: process_def reset_def createErrorOutput_def)

lemma process_wrong_type:
  assumes "ext_of (file_name f) \<notin> set (validExts fmt)"
  shows "process fmt c [f] s =
    put c \<lparr>stage = Returned (Failure FILE_TYPE_INVALID (msgInvalidType fmt)
              (Some (''Received: '' @ (if file_type f \<noteq> [] then file_type f else file_name f)))),
           cancelled = False, emitted = []\<rparr> s"
  using assms by (simp add: process_def reset_def createErrorOutput_def Let_def)

lemma process_accepted:
  assumes "ext_of (file_name f) \<in> set (validExts fmt)"
  shows "process fmt c [f] s =
    put c \<lparr>stage = AwaitingConverter f, cancelled = False, emitted = [(5, loading)]\<rparr>
      (s\<lparr>shared := getConverter c True (shared s)\<rparr>)"
  using assms
  by (simp add: process_def reset_def updateProgress_def into_range_def last_percent_def Let_def)

lemmas system_eval =
  run_def system_init_def process_def reset_def updateProgress_def into_range_def
  last_percent_def put_def module_eval report_progress_def forward_to_def
  onConverterProgress_def on_report_def scaled_def convertToPdf_def resume_def
  convert_settled_def checkCancelled_def cancel_def caught_def error_detail_def
  cancelled_output_def createErrorOutput_def createSuccessOutput_def healthy_operation_def
  progress_event_def stage_of_def emitted_of_def loading_def

text \<open>
  Claim C7. A call of \<^verbatim>\<open>process\<close> with no file, or with two or more, returns the error
  \<^verbatim>\<open>INVALID_OPTIONS\<close> at once, and the shared module state is the one before the call:
  the two module variables, the instance with its counters of \<^verbatim>\<open>initialize\<close> and
  \<^verbatim>\<open>convertToPdf\<close> invocations, and the counter of \<^verbatim>\<open>getConverter\<close> calls are untouched.
\<close>

theorem wrong_count_rejected:
  assumes "length files \<noteq> 1" and "processors s c = None"
  shows "stage_of c (step fmt (Process c files) s)
           = Some (Returned (Failure INVALID_OPTIONS (msgExactlyOne fmt)
                (Some (''Received '' @ string_of_nat (length files) @ '' file(s).''))))
    \<and> shared (step fmt (Process c files) s) = shared s"
  using assms(2) by (simp add: stage_of_def process_wrong_count [OF assms(1)] put_def)

theorem two_files_example:
  "stage_of 1 (step PPTX (Process 1 [\<lparr>file_name = ''a.pptx'', file_type = ''''\<rparr>,
                                      \<lparr>file_name = ''b.pptx'', file_type = ''''\<rparr>]) system_init)
       = Some (Returned (Failure INVALID_OPTIONS ''Please provide exactly one PowerPoint presentation.''
                 (Some ''Received 2 file(s).'')))
   \<and> shared (step PPTX (Process 1 [\<lparr>file_name = ''a.pptx'', file_type = ''''\<rparr>,
                                    \<lparr>file_name = ''b.pptx'', file_type = ''''\<rparr>]) system_init)
       = module_init"
proof -
  have a: "length [\<lparr>file_name = ''a.pptx'', file_type = ''''\<rparr>, \<lparr>file_name = ''b.pptx'', file_type = ''''\<rparr>] \<noteq> 1"
    by simp
  have b: "processors system_init 1 = None"
    by (simp add: system_init_def)
  have c: "shared system_init = module_init"
    by (simp add: system_init_def)
  show ?thesis
    using wrong_count_rejected [OF a b, of PPTX]
    by (simp add: c string_of_nat.simps)
qed

text \<open>
  Claim C8. A call of \<^verbatim>\<open>process\<close> with one file whose last dot-separated segment of
  the name, in lower case, is not an accepted extension returns the error
  \<^verbatim>\<open>FILE_TYPE_INVALID\<close> at once, and the shared module state is the one before the
  call: no engine work has started.
\<close>

theorem wrong_type_rejected:
  assumes "toLowerCase (last (split_on CHR ''.'' (file_name f))) \<notin> set (validExts fmt)"
    and "processors s c = None"
  shows "stage_of c (step fmt (Process c [f]) s)
           = Some (Returned (Failure FILE_TYPE_INVALID (msgInvalidType fmt)
                (Some (''Received: '' @ (if file_type f \<noteq> [] then file_type f else file_name f)))))
    \<and> shared (step fmt (Process c [f]) s) = shared s"
proof -
  have "ext_of (file_name f) \<notin> set (validExts fmt)"
    using assms(1) by (simp add: ext_of_last)
  from process_wrong_type [OF this] assms(2) show ?thesis
    by (simp add: stage_of_def put_def)
qed

theorem txt_file_example:
  "stage_of 1 (step RTF (Process 1 [\<lparr>file_name = ''notes.txt'', file_type = ''text/plain''\<rparr>]) system_init)
       = Some (Returned (Failure FILE_TYPE_INVALID ''Invalid file type. Please upload an .rtf file.''
                 (Some ''Received: text/plain'')))
   \<and> shared (step RTF (Process 1 [\<lparr>file_name = ''notes.txt'', file_type = ''text/plain''\<rparr>]) system_init)
       = module_init"
proof -
  have a: "toLowerCase (last (split_on CHR ''.'' (file_name \<lparr>file_name = ''notes.txt'', file_type = ''text/plain''\<rparr>)))
     \<notin> set (validExts RTF)"
    by (simp add: name_eval)
  have b: "processors system_init 1 = None"
    by (simp add: system_init_def)
  have c: "shared system_init = module_init"
    by (simp add: system_init_def)
  show ?thesis
    using wrong_type_rejected [OF a b]
    by (simp add: c)
qed

subsection \<open>One whole operation\<close>

lemma shared_put [simp]: "shared (put c p s) = shared s"
  by (simp add: put_def)

lemma processors_put [simp]: "processors (put c p s) = (processors s)(c \<mapsto> p)"
  by (simp add: put_def)

lemma updateProgress_keeps [simp]:
  "stage (updateProgress n message p) = stage p"
  "cancelled (updateProgress n message p) = cancelled p"
  by (simp_all add: updateProgress_def)

lemma on_reports_keep [simp]:
  "stage (fold on_report raws p) = stage p"
  "cancelled (fold on_report raws p) = cancelled p"
  by (induction raws arbitrary: p) (simp_all add: on_report_def onConverterProgress_def)

lemma engine_progress_fields [simp]:
  "promise_ref (engine_progress n message m) = promise_ref m"
  "converterInstance (engine_progress n message m) = converterInstance m"
  "promises (engine_progress n message m) = promises m"
  "returned (engine_progress n message m) = returned m"
  "getConverter_calls (engine_progress n message m) = getConverter_calls m"
  "initialize_count (engine_progress n message m) = initialize_count m"
  "progress_targets (engine_progress n message m) = progress_targets m"
  by (simp_all add: engine_progress_def progress_targets_def)

lemma shared_forward [simp]: "shared (fold (forward_to n message) cs s) = shared s"
  by (induction cs arbitrary: s) (simp_all add: forward_to_def split: option.splits)

lemma progress_run:
  assumes "progress_targets (shared s) = [c]" and "processors s c = Some p"
  shows "run fmt (map progress_event raws) s =
    \<lparr>shared = (shared s)\<lparr>delivered := delivered (shared s) @ map (Pair c) raws\<rparr>,
     processors = (processors s)(c \<mapsto> fold on_report raws p)\<rparr>"
  using assms
proof (induction raws arbitrary: s p)
  case Nil
  then show ?case by (simp add: run_Nil fun_upd_idem)
next
  case (Cons raw raws)
  obtain percent message where raw: "raw = (percent, message)" by (cases raw)
  define s1 where "s1 = step fmt (Progress percent message) s"
  define p1 where "p1 = on_report raw p"
  have s1: "s1 = \<lparr>shared = (shared s)\<lparr>delivered := delivered (shared s) @ [(c, percent, message)]\<rparr>,
      processors = (processors s)(c \<mapsto> p1)\<rparr>"
    using Cons.prems
    by (simp add: s1_def p1_def raw report_progress_def forward_to_def engine_progress_def put_def
        on_report_def)
  have t: "progress_targets (shared s1) = [c]"
    using Cons.prems(1) unfolding s1 by (simp add: progress_targets_def)
  have p: "processors s1 c = Some p1"
    unfolding s1 by simp
  have "run fmt (map progress_event (raw # raws)) s = run fmt (map progress_event raws) s1"
    by (simp add: raw run_Cons s1_def progress_event_def)
  also note Cons.IH [OF t p]
  finally have fin: "run fmt (map progress_event (raw # raws)) s =
    \<lparr>shared = shared s1\<lparr>delivered := delivered (shared s1) @ map (Pair c) raws\<rparr>,
       processors = (processors s1)(c \<mapsto> fold on_report raws p1)\<rparr>" .
  have "(processors s1)(c \<mapsto> fold on_report raws p1)
     = (processors s)(c \<mapsto> fold on_report (raw # raws) p)"
    unfolding s1 system.simps fun_upd_upd by (simp add: p1_def)
  moreover have "shared s1\<lparr>delivered := delivered (shared s1) @ map (Pair c) raws\<rparr>
     = (shared s)\<lparr>delivered := delivered (shared s) @ map (Pair c) (raw # raws)\<rparr>"
    unfolding s1 system.simps by (simp add: raw)
  ultimately show ?case
    using fin by (simp only:)
qed

lemma healthy_operation_result:
  assumes "ext_of (file_name f) \<in> set (validExts fmt)"
  shows "stage_of c (run fmt (healthy_operation c f raws b) system_init) =
    Some (Returned (Success b (replace_ext (extPattern fmt) (file_name f) @ ''.pdf'') ''pdf''))"
proof -
  let ?p1 = "\<lparr>stage = AwaitingConverter f, cancelled = False, emitted = [(5, loading)]\<rparr>"
  let ?m2 = "\<lparr>promise_ref = Some 0,
      converterInstance = Some (initialize getLibreOfficeConverter),
      promises = [\<lparr>promise_state = Pending, callback = Some c, handed = True, waiting = [c]\<rparr>],
      returned = (\<lambda>c. None), delivered = [], getConverter_calls = 1, initialize_count = 1\<rparr>"
  let ?s2 = "\<lparr>shared = ?m2, processors = (\<lambda>c. None)(c \<mapsto> ?p1)\<rparr>"
  have s2: "run fmt [Process c [f], ImportSettles None] system_init = ?s2"
    by (simp add: run_def system_init_def process_accepted [OF assms] put_def first_acquire
        import_settled_def import_resumes_def importing_def update_flight_def)
  have t: "progress_targets (shared ?s2) = [c]"
    by (simp add: progress_targets_def)
  have p: "processors ?s2 c = Some ?p1"
    by simp
  note s3 = progress_run [OF t p, of fmt raws]
  have split: "run fmt (healthy_operation c f raws b) system_init =
      run fmt [InitializeSettles None, Resume c, ConvertSettles c (Inr b)]
        (run fmt (map progress_event raws)
           (run fmt [Process c [f], ImportSettles None] system_init))"
    unfolding healthy_operation_def run_append ..
  show ?thesis
    unfolding split s2 s3
    by (simp add: run_def initialize_settled_def initialize_resumes_def initializing_def
        settle_def update_flight_def return_to_def resume_def checkCancelled_def put_def
        convert_settled_def createSuccessOutput_def stage_of_def Let_def)
qed

lemma ready_operation_result:
  assumes "ext_of (file_name f) \<in> set (validExts fmt)"
    and "processors s c = None"
    and "converterInstance (shared s) = Some e" and "ready e"
  shows "stage_of c (run fmt [Process c [f], Resume c, ConvertSettles c (Inr b)] s) =
    Some (Returned (Success b (replace_ext (extPattern fmt) (file_name f) @ ''.pdf'') ''pdf''))"
  using assms(2-4)
  by (simp add: run_def process_accepted [OF assms(1)] put_def getConverter_def isReady_def
      return_to_def resume_def checkCancelled_def convert_settled_def
      createSuccessOutput_def stage_of_def Let_def)

subsection \<open>The suggested file name\<close>

text \<open>
  Claim C4. Let the name of the file be \<open>base\<close>, a dot and \<open>e\<close>, where \<open>e\<close> is an accepted
  extension in any mix of upper and lower case. With a healthy engine and no
  cancellation the call returns a success whose suggested name is \<open>base\<close> followed
  by \<^verbatim>\<open>.pdf\<close>: on a module that the call itself has to initialize, whatever
  progress the engine reports, on a module whose instance is ready already, and
  in general whenever the conversion of a call that was not cancelled succeeds,
  whatever else has happened in the system.
\<close>

theorem suggested_name:
  assumes "file_name f = base @ ''.'' @ e" and "toLowerCase e \<in> set (validExts fmt)"
  shows "stage_of c (run fmt (healthy_operation c f raws b) system_init)
           = Some (Returned (Success b (base @ ''.pdf'') ''pdf''))
    \<and> (\<forall>s en. processors s c = None \<and> converterInstance (shared s) = Some en \<and> ready en \<longrightarrow>
          stage_of c (run fmt [Process c [f], Resume c, ConvertSettles c (Inr b)] s)
            = Some (Returned (Success b (base @ ''.pdf'') ''pdf'')))
    \<and> (\<forall>s p. processors s c = Some p \<and> stage p = AwaitingConversion f \<and> \<not> cancelled p \<longrightarrow>
          stage_of c (step fmt (ConvertSettles c (Inr b)) s)
            = Some (Returned (Success b (base @ ''.pdf'') ''pdf'')))"
proof -
  note v = valid_dotted_name [OF assms]
  have local: "stage_of c (step fmt (ConvertSettles c (Inr b)) s)
            = Some (Returned (Success b (base @ ''.pdf'') ''pdf''))"
    if "processors s c = Some p" and "stage p = AwaitingConversion f" and "\<not> cancelled p"
    for s p
    using that
    by (simp add: convert_settled_def checkCancelled_def put_def stage_of_def
        createSuccessOutput_def Let_def v(2))
  have "stage_of c (run fmt (healthy_operation c f raws b) system_init)
           = Some (Returned (Success b (base @ ''.pdf'') ''pdf''))"
    unfolding healthy_operation_result [OF v(1)] v(2) by simp
  moreover have "stage_of c (run fmt [Process c [f], Resume c, ConvertSettles c (Inr b)] s)
            = Some (Returned (Success b (base @ ''.pdf'') ''pdf''))"
    if "processors s c = None" and "converterInstance (shared s) = Some en" and "ready en"
    for s en
    unfolding ready_operation_result [OF v(1) that] v(2) by simp
  ultimately show ?thesis using local by blast
qed

text \<open>
  The example of the specification: \<^verbatim>\<open>Report.DOCX\<close> gives \<^verbatim>\<open>Report.pdf\<close>, for the
  operation that initializes the engine and for a second one that finds it ready.
\<close>

theorem report_docx_example:
  "toLowerCase ''DOCX'' \<in> set (validExts Word)
   \<and> stage_of 1 (run Word (healthy_operation 1 \<lparr>file_name = ''Report.DOCX'', file_type = ''''\<rparr>
                       [(Finite 10, ''Loading''), (Finite 100, ''Ready'')] 7) system_init)
       = Some (Returned (Success 7 ''Report.pdf'' ''pdf''))
   \<and> processors (run Word (healthy_operation 1 \<lparr>file_name = ''Report.DOCX'', file_type = ''''\<rparr>
                       [(Finite 10, ''Loading''), (Finite 100, ''Ready'')] 7) system_init) 2 = None
   \<and> converterInstance (shared (run Word (healthy_operation 1
          \<lparr>file_name = ''Report.DOCX'', file_type = ''''\<rparr> [(Finite 10, ''Loading''), (Finite 100, ''Ready'')] 7)
          system_init))
       = Some \<lparr>ready = True, initialize_calls = 1, convertToPdf_calls = 1\<rparr>
   \<and> stage_of 2 (run Word [Process 2 [\<lparr>file_name = ''Report.DOCX'', file_type = ''''\<rparr>], Resume 2,
                            ConvertSettles 2 (Inr 8)]
        (run Word (healthy_operation 1 \<lparr>file_name = ''Report.DOCX'', file_type = ''''\<rparr>
                       [(Finite 10, ''Loading''), (Finite 100, ''Ready'')] 7) system_init))
       = Some (Returned (Success 8 ''Report.pdf'' ''pdf''))"
proof -
  let ?f = "\<lparr>file_name = ''Report.DOCX'', file_type = ''''\<rparr>"
  let ?s = "run Word (healthy_operation 1 ?f [(Finite 10, ''Loading''), (Finite 100, ''Ready'')] 7) system_init"
  let ?en = "\<lparr>ready = True, initialize_calls = 1, convertToPdf_calls = 1\<rparr>"
  have n: "file_name ?f = ''Report'' @ ''.'' @ ''DOCX''"
    by simp
  have e: "toLowerCase ''DOCX'' \<in> set (validExts Word)"
    by (simp add: name_eval)
  have fresh: "processors ?s 2 = None"
    by (simp add: system_eval name_eval)
  have inst: "converterInstance (shared ?s) = Some ?en"
    by (simp add: system_eval name_eval)
  have rdy: "ready ?en"
    by simp
  note first = suggested_name [OF n e, of 1 "[(Finite 10, ''Loading''), (Finite 100, ''Ready'')]" 7, THEN conjunct1]
  note again = suggested_name [OF n e, of 2 "[]" 8, THEN conjunct2, THEN conjunct1,
      rule_format, of ?s ?en]
  show ?thesis
    using e first fresh inst again [OF conjI [OF fresh conjI [OF inst rdy]]]
    by simp
qed

text \<open>
  Claim C10. A file whose name has no dot and is, in lower case, one of the accepted
  extensions passes the validation: the call goes on to acquire the engine instead
  of returning \<^verbatim>\<open>FILE_TYPE_INVALID\<close>. When the conversion succeeds, the suggested name
  is the whole name, unchanged, followed by \<^verbatim>\<open>.pdf\<close>: for the operation that
  initializes the engine, and in general whenever the conversion of a call that
  was not cancelled succeeds.
\<close>

theorem bare_extension_name:
  assumes "CHR ''.'' \<notin> set (file_name f)" and "toLowerCase (file_name f) \<in> set (validExts fmt)"
  shows "(\<forall>s. processors s c = None \<longrightarrow>
            stage_of c (step fmt (Process c [f]) s) = Some (AwaitingConverter f))
    \<and> stage_of c (run fmt (healthy_operation c f raws b) system_init)
         = Some (Returned (Success b (file_name f @ ''.pdf'') ''pdf''))
    \<and> (\<forall>s p. processors s c = Some p \<and> stage p = AwaitingConversion f \<and> \<not> cancelled p \<longrightarrow>
          stage_of c (step fmt (ConvertSettles c (Inr b)) s)
            = Some (Returned (Success b (file_name f @ ''.pdf'') ''pdf'')))"
proof -
  have v: "ext_of (file_name f) \<in> set (validExts fmt)"
    unfolding ext_of_no_dot [OF assms(1)] by (rule assms(2))
  have local: "stage_of c (step fmt (ConvertSettles c (Inr b)) s)
            = Some (Returned (Success b (file_name f @ ''.pdf'') ''pdf''))"
    if "processors s c = Some p" and "stage p = AwaitingConversion f" and "\<not> cancelled p"
    for s p
    using that
    by (simp add: convert_settled_def checkCancelled_def put_def stage_of_def
        createSuccessOutput_def Let_def replace_ext_no_dot [OF assms(1)])
  have "stage_of c (step fmt (Process c [f]) s) = Some (AwaitingConverter f)"
    if "processors s c = None" for s
    using that by (simp add: stage_of_def process_accepted [OF v] put_def)
  moreover have "stage_of c (run fmt (healthy_operation c f raws b) system_init)
         = Some (Returned (Success b (file_name f @ ''.pdf'') ''pdf''))"
    unfolding healthy_operation_result [OF v] replace_ext_no_dot [OF assms(1)]
    by simp
  ultimately show ?thesis using local by blast
qed

text \<open>A file named \<^verbatim>\<open>rtf\<close>: accepted by the RTF processor, and converted to \<^verbatim>\<open>rtf.pdf\<close>.\<close>

theorem file_named_rtf_example:
  "CHR ''.'' \<notin> set (file_name \<lparr>file_name = ''rtf'', file_type = ''''\<rparr>)
   \<and> toLowerCase (file_name \<lparr>file_name = ''rtf'', file_type = ''''\<rparr>) \<in> set (validExts RTF)
   \<and> stage_of 1 (step RTF (Process 1 [\<lparr>file_name = ''rtf'', file_type = ''''\<rparr>]) system_init)
       = Some (AwaitingConverter \<lparr>file_name = ''rtf'', file_type = ''''\<rparr>)
   \<and> stage_of 1 (run RTF (healthy_operation 1 \<lparr>file_name = ''rtf'', file_type = ''''\<rparr> [] 7) system_init)
       = Some (Returned (Success 7 ''rtf.pdf'' ''pdf''))"
proof -
  have a: "CHR ''.'' \<notin> set (file_name \<lparr>file_name = ''rtf'', file_type = ''''\<rparr>)"
    by simp
  have b: "toLowerCase (file_name \<lparr>file_name = ''rtf'', file_type = ''''\<rparr>) \<in> set (validExts RTF)"
    by (simp add: name_eval)
  have c: "processors system_init 1 = None"
    by (simp add: system_init_def)
  show ?thesis
    using a b c bare_extension_name [OF a b, of 1 "[]" 7]
    by simp
qed

subsection \<open>Cancellation while the engine is being acquired\<close>

lemma forward_keeps:
  assumes "processors s c = Some p"
  shows "\<exists>p'. processors (fold (forward_to n message) cs s) c = Some p'
           \<and> stage p' = stage p \<and> cancelled p' = cancelled p"
  using assms
proof (induction cs arbitrary: s p)
  case Nil
  then show ?case by simp
next
  case (Cons a cs)
  have "\<exists>p1. processors (forward_to n message a s) c = Some p1
           \<and> stage p1 = stage p \<and> cancelled p1 = cancelled p"
    using Cons.prems
    by (auto simp: forward_to_def onConverterProgress_def split: option.splits)
  then obtain p1 where p1: "processors (forward_to n message a s) c = Some p1"
    "stage p1 = stage p" "cancelled p1 = cancelled p"
    by blast
  from Cons.IH [OF p1(1)] p1(2,3) show ?case by simp
qed

lemma step_keeps_cancelled:
  assumes "processors s c = Some p" and "stage p = AwaitingConverter f" and "cancelled p"
    and "ev \<noteq> Resume c"
  shows "\<exists>p'. processors (step fmt ev s) c = Some p' \<and> stage p' = AwaitingConverter f \<and> cancelled p'"
proof (cases ev)
  case (Process c' files)
  then show ?thesis using assms
    by (auto simp: process_def put_def Let_def)
next
  case (Cancel c')
  then show ?thesis using assms
    by (auto simp: put_def cancel_def split: option.splits)
next
  case (ImportSettles r)
  then show ?thesis using assms by simp
next
  case (Progress percent message)
  have "processors (s\<lparr>shared := engine_progress percent message (shared s)\<rparr>) c = Some p"
    using assms(1) by simp
  from forward_keeps [OF this, of percent message "progress_targets (shared s)"]
  show ?thesis using Progress assms(2,3)
    by (auto simp: report_progress_def)
next
  case (InitializeSettles r)
  then show ?thesis using assms by simp
next
  case (Resume c')
  then show ?thesis using assms
    by (auto simp: resume_def put_def split: option.splits stage.splits sum.splits)
next
  case (ConvertSettles c' r)
  then show ?thesis using assms
    by (auto simp: convert_settled_def put_def Let_def
        split: option.splits stage.splits sum.splits)
qed

lemma run_keeps_cancelled:
  assumes "processors s c = Some p" and "stage p = AwaitingConverter f" and "cancelled p"
    and "Resume c \<notin> set es"
  shows "\<exists>p'. processors (run fmt es s) c = Some p' \<and> stage p' = AwaitingConverter f \<and> cancelled p'"
  using assms
proof (induction es arbitrary: s p)
  case Nil
  then show ?case by (simp add: run_Nil)
next
  case (Cons ev es)
  have "ev \<noteq> Resume c" and rest: "Resume c \<notin> set es"
    using Cons.prems(4) by auto
  from step_keeps_cancelled [OF Cons.prems(1-3) this(1), of fmt]
  obtain p' where "processors (step fmt ev s) c = Some p'" "stage p' = AwaitingConverter f" "cancelled p'"
    by blast
  from Cons.IH [OF this rest] show ?case
    by (simp add: run_Cons)
qed

text \<open>
  Claim C6, as amended. A call of \<^verbatim>\<open>process\<close> is suspended at \<^verbatim>\<open>await getConverter(...)\<close>
  and its cancellation is requested; then anything happens (the events \<open>es\<close>: the
  engine initializes, other calls start, cancel, convert) until the call resumes.
  The request itself leaves the shared module state as it was. When the
  acquisition has succeeded, the call returns \<^verbatim>\<open>PROCESSING_CANCELLED\<close> without
  touching the module state, so without invoking \<^verbatim>\<open>convertToPdf\<close>. When the
  acquisition has failed with \<open>t\<close>, the call returns \<^verbatim>\<open>PROCESSING_FAILED\<close> with the
  detail of \<open>t\<close>: the rejection reaches the \<^verbatim>\<open>catch\<close> before the checkpoint of line 83.
\<close>

theorem cancelled_before_acquired:
  assumes "processors s c = Some p" and "stage p = AwaitingConverter f" and "Resume c \<notin> set es"
  shows "shared (step fmt (Cancel c) s) = shared s
    \<and> (returned (shared (run fmt (Cancel c # es) s)) c = Some (Inr ()) \<longrightarrow>
         stage_of c (run fmt (Cancel c # es @ [Resume c]) s)
           = Some (Returned (Failure PROCESSING_CANCELLED ''Processing was cancelled.'' None))
         \<and> shared (run fmt (Cancel c # es @ [Resume c]) s) = shared (run fmt (Cancel c # es) s))
    \<and> (\<forall>t. returned (shared (run fmt (Cancel c # es) s)) c = Some (Inl t) \<longrightarrow>
         stage_of c (run fmt (Cancel c # es @ [Resume c]) s)
           = Some (Returned (Failure PROCESSING_FAILED (msgFailed fmt) (Some (error_detail t)))))"
proof -
  let ?s1 = "step fmt (Cancel c) s"
  have frame: "shared ?s1 = shared s"
    using assms(1) by (simp add: put_def)
  have p1: "processors ?s1 c = Some (cancel p)"
    and st: "stage (cancel p) = AwaitingConverter f" and ca: "cancelled (cancel p)"
    using assms(1,2) by (simp_all add: put_def cancel_def)
  from run_keeps_cancelled [OF p1 st ca assms(3), of fmt]
  obtain p' where p': "processors (run fmt (Cancel c # es) s) c = Some p'"
    "stage p' = AwaitingConverter f" "cancelled p'"
    by (auto simp: run_Cons)
  have last: "run fmt (Cancel c # es @ [Resume c]) s = resume fmt c (run fmt (Cancel c # es) s)"
    using run_append [of fmt "Cancel c # es" "[Resume c]" s] by (simp add: run_Cons run_Nil)
  have ok: "stage_of c (resume fmt c (run fmt (Cancel c # es) s))
           = Some (Returned (Failure PROCESSING_CANCELLED ''Processing was cancelled.'' None))
         \<and> shared (resume fmt c (run fmt (Cancel c # es) s)) = shared (run fmt (Cancel c # es) s)"
    if "returned (shared (run fmt (Cancel c # es) s)) c = Some (Inr ())"
    using that p'
    by (simp add: resume_def checkCancelled_def put_def stage_of_def cancelled_output_def
        createErrorOutput_def)
  have ko: "stage_of c (resume fmt c (run fmt (Cancel c # es) s))
           = Some (Returned (Failure PROCESSING_FAILED (msgFailed fmt) (Some (error_detail t))))"
    if "returned (shared (run fmt (Cancel c # es) s)) c = Some (Inl t)" for t
    using that p'
    by (simp add: resume_def put_def stage_of_def caught_def createErrorOutput_def)
  show ?thesis
    unfolding last using frame ok ko by blast
qed

text \<open>
  The cancellation arrives before the import has settled. When the engine then
  initializes, as if nothing had been requested, the call returns
  \<^verbatim>\<open>PROCESSING_CANCELLED\<close>; when the initialization then fails, it returns
  \<^verbatim>\<open>PROCESSING_FAILED\<close>.
\<close>

theorem cancel_during_initialization_example:
  "processors (step PPTX (Process 1 [\<lparr>file_name = ''a.pptx'', file_type = ''''\<rparr>]) system_init) 1
     = Some \<lparr>stage = AwaitingConverter \<lparr>file_name = ''a.pptx'', file_type = ''''\<rparr>,
             cancelled = False, emitted = [(5, loading)]\<rparr>
   \<and> Resume 1 \<notin> set [ImportSettles None, Progress (Finite 50) ''Loading'', InitializeSettles None]
   \<and> returned (shared (run PPTX (Cancel 1 # [ImportSettles None, Progress (Finite 50) ''Loading'', InitializeSettles None])
        (step PPTX (Process 1 [\<lparr>file_name = ''a.pptx'', file_type = ''''\<rparr>]) system_init))) 1
       = Some (Inr ())
   \<and> stage_of 1 (run PPTX (Cancel 1 # [ImportSettles None, Progress (Finite 50) ''Loading'', InitializeSettles None]
                              @ [Resume 1])
        (step PPTX (Process 1 [\<lparr>file_name = ''a.pptx'', file_type = ''''\<rparr>]) system_init))
       = Some (Returned (Failure PROCESSING_CANCELLED ''Processing was cancelled.'' None))
   \<and> converterPromise (shared (run PPTX (Cancel 1 # [ImportSettles None, Progress (Finite 50) ''Loading'',
                                                    InitializeSettles None] @ [Resume 1])
        (step PPTX (Process 1 [\<lparr>file_name = ''a.pptx'', file_type = ''''\<rparr>]) system_init)))
       = Some Fulfilled
   \<and> returned (shared (run PPTX (Cancel 1 # [ImportSettles None, InitializeSettles (Some (ErrorInstance ''boom''))])
        (step PPTX (Process 1 [\<lparr>file_name = ''a.pptx'', file_type = ''''\<rparr>]) system_init))) 1
       = Some (Inl (ErrorInstance ''boom''))
   \<and> stage_of 1 (run PPTX (Cancel 1 # [ImportSettles None, InitializeSettles (Some (ErrorInstance ''boom''))]
                              @ [Resume 1])
        (step PPTX (Process 1 [\<lparr>file_name = ''a.pptx'', file_type = ''''\<rparr>]) system_init))
       = Some (Returned (Failure PROCESSING_FAILED ''Failed to convert PowerPoint to PDF.'' (Some ''boom'')))"
proof -
  let ?f = "\<lparr>file_name = ''a.pptx'', file_type = ''''\<rparr>"
  let ?p = "\<lparr>stage = AwaitingConverter ?f, cancelled = False, emitted = [(5, loading)]\<rparr>"
  let ?s = "step PPTX (Process 1 [?f]) system_init"
  let ?es = "[ImportSettles None, Progress (Finite 50) ''Loading'', InitializeSettles None]"
  let ?es' = "[ImportSettles None, InitializeSettles (Some (ErrorInstance ''boom''))]"
  have a: "processors ?s 1 = Some ?p"
    by (simp add: system_eval name_eval)
  have b: "stage ?p = AwaitingConverter ?f"
    by simp
  have c: "Resume 1 \<notin> set ?es" and c': "Resume 1 \<notin> set ?es'"
    by simp_all
  have d: "returned (shared (run PPTX (Cancel 1 # ?es) ?s)) 1 = Some (Inr ())"
    by (simp add: system_eval name_eval)
  have d': "returned (shared (run PPTX (Cancel 1 # ?es') ?s)) 1 = Some (Inl (ErrorInstance ''boom''))"
    by (simp add: system_eval name_eval)
  have e: "converterPromise (shared (run PPTX (Cancel 1 # ?es) ?s)) = Some Fulfilled"
    by (simp add: system_eval name_eval)
  show ?thesis
    using a c d d' e cancelled_before_acquired [OF a b c, of PPTX]
      cancelled_before_acquired [OF a b c', of PPTX]
    by (simp add: error_detail_def)
qed

text \<open>
  The cancellation is requested while \<^verbatim>\<open>initialize\<close> runs, and \<^verbatim>\<open>initialize\<close> then fails:
  the call returns \<^verbatim>\<open>PROCESSING_FAILED\<close>, not \<^verbatim>\<open>PROCESSING_CANCELLED\<close>.
\<close>

theorem cancel_then_failed_acquisition:
  "stage_of 1 (run PPTX [Process 1 [\<lparr>file_name = ''a.pptx'', file_type = ''''\<rparr>], ImportSettles None,
                         Cancel 1, InitializeSettles (Some (ErrorInstance ''boom'')), Resume 1] system_init)
     = Some (Returned (Failure PROCESSING_FAILED ''Failed to convert PowerPoint to PDF.'' (Some ''boom'')))"
  by (simp add: system_eval name_eval)

subsection \<open>Failures of the engine\<close>

text \<open>
  Claim C9, as amended. Whatever value \<open>t\<close> the acquisition or the conversion throws,
  the call of \<^verbatim>\<open>process\<close> returns the error \<^verbatim>\<open>PROCESSING_FAILED\<close>; nothing propagates. The
  detail is the message when \<open>t\<close> is an \<^verbatim>\<open>Error\<close> instance, and the fixed text
  \<^verbatim>\<open>Unknown error\<close> for any other thrown value, whatever that value holds.
\<close>

theorem failure_is_translated:
  "(processors s c = Some p \<and> stage p = AwaitingConverter f \<and> returned (shared s) c = Some (Inl t) \<longrightarrow>
      stage_of c (step fmt (Resume c) s)
        = Some (Returned (Failure PROCESSING_FAILED (msgFailed fmt)
            (Some (case t of ErrorInstance msg \<Rightarrow> msg | OtherValue v \<Rightarrow> ''Unknown error'')))))
   \<and> (processors s c = Some p \<and> stage p = AwaitingConversion f \<longrightarrow>
      stage_of c (step fmt (ConvertSettles c (Inl t)) s)
        = Some (Returned (Failure PROCESSING_FAILED (msgFailed fmt)
            (Some (case t of ErrorInstance msg \<Rightarrow> msg | OtherValue v \<Rightarrow> ''Unknown error'')))))"
  by (simp add: resume_def convert_settled_def put_def stage_of_def caught_def
      createErrorOutput_def error_detail_def)

text \<open>A failed initialization, and a failed conversion, each with an \<^verbatim>\<open>Error\<close> instance.\<close>

theorem translated_failure_example:
  "stage_of 1 (step PPTX (Resume 1)
        (run PPTX [Process 1 [\<lparr>file_name = ''a.pptx'', file_type = ''''\<rparr>], ImportSettles None,
                   InitializeSettles (Some (ErrorInstance ''boom''))] system_init))
     = Some (Returned (Failure PROCESSING_FAILED ''Failed to convert PowerPoint to PDF.'' (Some ''boom'')))
   \<and> stage_of 1 (step PPTX (ConvertSettles 1 (Inl (ErrorInstance ''corrupt file'')))
        (run PPTX [Process 1 [\<lparr>file_name = ''a.pptx'', file_type = ''''\<rparr>], ImportSettles None,
                   InitializeSettles None, Resume 1] system_init))
     = Some (Returned (Failure PROCESSING_FAILED ''Failed to convert PowerPoint to PDF.''
               (Some ''corrupt file'')))"
proof -
  let ?f = "\<lparr>file_name = ''a.pptx'', file_type = ''''\<rparr>"
  let ?s = "run PPTX [Process 1 [?f], ImportSettles None,
                      InitializeSettles (Some (ErrorInstance ''boom''))] system_init"
  let ?p = "\<lparr>stage = AwaitingConverter ?f, cancelled = False, emitted = [(5, loading)]\<rparr>"
  let ?s' = "run PPTX [Process 1 [?f], ImportSettles None, InitializeSettles None, Resume 1] system_init"
  let ?p' = "\<lparr>stage = AwaitingConversion ?f, cancelled = False,
              emitted = [(5, loading), (85, ''Converting PowerPoint to PDF...'')]\<rparr>"
  have a: "processors ?s 1 = Some ?p"
    by (simp add: system_eval name_eval)
  have b: "returned (shared ?s) 1 = Some (Inl (ErrorInstance ''boom''))"
    by (simp add: system_eval name_eval)
  have c: "processors ?s' 1 = Some ?p'"
    by (simp add: system_eval name_eval)
  show ?thesis
    using a b c
      failure_is_translated [of ?s 1 ?p ?f "ErrorInstance ''boom''" PPTX]
      failure_is_translated [of ?s' 1 ?p' ?f "ErrorInstance ''corrupt file''" PPTX]
    by simp
qed

text \<open>
  The conversion throws a value that is not an \<^verbatim>\<open>Error\<close> instance, here a string: the
  detail of the result is \<^verbatim>\<open>Unknown error\<close>, and the text thrown is lost.
\<close>

theorem thrown_non_error_loses_message:
  "stage_of 1 (run PPTX [Process 1 [\<lparr>file_name = ''a.pptx'', file_type = ''''\<rparr>], ImportSettles None,
                         InitializeSettles None, Resume 1,
                         ConvertSettles 1 (Inl (OtherValue ''out of memory''))] system_init)
     = Some (Returned (Failure PROCESSING_FAILED ''Failed to convert PowerPoint to PDF.''
               (Some ''Unknown error'')))"
  by (simp add: system_eval name_eval)

subsection \<open>The instance is there when a call resumes\<close>

lemma module_inv_convert:
  assumes "module_inv m"
  shows "module_inv (m\<lparr>converterInstance := map_option convertToPdf (converterInstance m)\<rparr>)"
  using assms
proof (cases rule: module_inv_cases)
  case none
  then show ?thesis by (simp add: module_inv_def)
next
  case (one f)
  then show ?thesis
    by (cases "promise_state f")
      (auto simp: module_inv_def flight_inv_def instance_inv_def convertToPdf_def
        split: if_splits)
qed

lemma module_inv_system_step:
  assumes "module_inv (shared s)"
  shows "module_inv (shared (step fmt ev s))"
proof (cases ev)
  case (Process c files)
  then show ?thesis
    using assms module_inv_acquire [OF assms, of c True]
    by (simp add: process_def Let_def)
next
  case (Cancel c)
  then show ?thesis using assms by (simp split: option.splits)
next
  case (ImportSettles r)
  then show ?thesis using module_inv_import [OF assms, of r] by simp
next
  case (Progress percent message)
  then show ?thesis using module_inv_progress [OF assms, of percent message]
    by (simp add: report_progress_def)
next
  case (InitializeSettles r)
  then show ?thesis using module_inv_initialize [OF assms, of r] by simp
next
  case (Resume c)
  then show ?thesis using assms module_inv_convert [OF assms]
    by (simp add: resume_def split: option.splits stage.splits sum.splits)
next
  case (ConvertSettles c r)
  then show ?thesis using assms
    by (simp add: convert_settled_def Let_def split: option.splits stage.splits sum.splits)
qed

lemma module_inv_system_run: "module_inv (shared (run fmt es system_init))"
proof -
  have "module_inv (shared s) \<Longrightarrow> module_inv (shared (run fmt es s))" for s
    by (induction es arbitrary: s) (simp_all add: run_Nil run_Cons module_inv_system_step)
  then show ?thesis
    by (simp add: system_init_def module_inv_init)
qed

lemma resumed_call_finds_instance:
  assumes "returned (shared (run fmt es system_init)) c = Some (Inr ())"
  shows "\<exists>e. converterInstance (shared (run fmt es system_init)) = Some e \<and> ready e"
  using returned_instance_ready [OF module_inv_system_run assms] .

subsection \<open>The progress percentages\<close>

text \<open>
  What the callback of lines 79 to 81 requests of \<^verbatim>\<open>updateProgress\<close>: for the raw
  percentages 50 and then 30 it requests 40 and then 24, and for a value that is
  not a number it requests one that is not a number. Whether the caller sees the
  requests as they are is up to \<^verbatim>\<open>updateProgress\<close>.
\<close>

lemma callback_requests:
  "scaled (Finite 50) = Finite 40" and "scaled (Finite 30) = Finite 24"
  and "scaled (Finite 250) = Finite 80" and "scaled NaN = NaN"
  by (simp_all add: scaled_def)











end
